theory Spec2Isabelle
  imports Complex_Main
begin

section \<open>Python exceptions\<close>

text \<open>
  A raised exception is a value: a function that can raise returns \<open>py_exception + 'a\<close>,
  with \<open>Inl\<close> for the exception.
\<close>

datatype py_exception =
    ValueError string
  | IndexError string
  | SyntaxError string
  | OverflowError string
  | OtherError string

section \<open>Python strings\<close>

text \<open>
  A Python \<open>str\<close> is modelled as a \<open>string\<close> whose characters are the code points
  below 256. The helpers below are the \<open>str\<close> methods the repository calls, with the
  behaviour CPython has on that range.
\<close>

definition isspace :: "char \<Rightarrow> bool" where
  \<comment> \<open>\<open>str.isspace\<close> on one character; the regular expression class \<open>\s\<close> is the same set.\<close>
  "isspace c = (of_char c \<in> {9, 10, 11, 12, 13, 28, 29, 30, 31, 32, 133, 160 :: nat})"

definition lstrip :: "string \<Rightarrow> string" where
  "lstrip s = dropWhile isspace s"

definition rstrip :: "string \<Rightarrow> string" where
  "rstrip s = rev (dropWhile isspace (rev s))"

definition strip :: "string \<Rightarrow> string" where
  "strip s = lstrip (rstrip s)"

definition startswith :: "string \<Rightarrow> string \<Rightarrow> bool" where
  "startswith s p = (take (length p) s = p)"

definition endswith :: "string \<Rightarrow> string \<Rightarrow> bool" where
  "endswith s p = (length p \<le> length s \<and> drop (length s - length p) s = p)"

definition slice :: "string \<Rightarrow> nat \<Rightarrow> nat \<Rightarrow> string" where
  \<comment> \<open>\<open>text[a:b]\<close> for non-negative \<open>a\<close> and \<open>b\<close>\<close>
  "slice text a b = take (b - a) (drop a text)"

fun find_in_suffix :: "string \<Rightarrow> string \<Rightarrow> nat \<Rightarrow> nat option" where
  "find_in_suffix sub [] k = (if sub = [] then Some k else None)"
| "find_in_suffix sub (c # cs) k =
     (if startswith (c # cs) sub then Some k else find_in_suffix sub cs (Suc k))"

definition find_from :: "string \<Rightarrow> string \<Rightarrow> nat \<Rightarrow> nat option" where
  \<comment> \<open>\<open>text.find(sub, start)\<close>; \<open>None\<close> is the result \<open>-1\<close>\<close>
  "find_from text sub start =
     (if length text < start then None else find_in_suffix sub (drop start text) start)"

fun first_index_from :: "(nat \<Rightarrow> bool) \<Rightarrow> nat \<Rightarrow> nat \<Rightarrow> nat option" where
  \<comment> \<open>a \<open>while j < len(text)\<close> search: the first of the \<open>n\<close> indices from \<open>j\<close> on that
      satisfies \<open>P\<close>\<close>
  "first_index_from P j 0 = None"
| "first_index_from P j (Suc n) = (if P j then Some j else first_index_from P (Suc j) n)"

lemma find_in_suffix_ge: "find_in_suffix sub s k = Some e \<Longrightarrow> k \<le> e"
  by (induction s arbitrary: k) (auto split: if_splits dest: Suc_leD)

lemma find_from_ge: "find_from s sub start = Some e \<Longrightarrow> start \<le> e"
  by (auto simp: find_from_def split: if_splits dest: find_in_suffix_ge)

lemma first_index_from_ge: "first_index_from P j n = Some e \<Longrightarrow> j \<le> e"
  by (induction n arbitrary: j) (auto split: if_splits dest: Suc_leD)

section \<open>org_parser.py: the inline tokenizer\<close>

type_synonym token = "string \<times> string"

definition delimiter_to_type :: "char \<rightharpoonup> string" where
  "delimiter_to_type =
     [CHR ''*'' \<mapsto> ''bold_text'', CHR ''/'' \<mapsto> ''italic_text'',
      CHR ''='' \<mapsto> ''code'', CHR ''~'' \<mapsto> ''code'']"

definition flush_plaintext :: "string \<Rightarrow> token list \<Rightarrow> token list" where
  "flush_plaintext buffer tokens =
     (if buffer \<noteq> [] then tokens @ [(''plaintext'', buffer)] else tokens)"

definition is_valid_emphasis_open :: "string \<Rightarrow> nat \<Rightarrow> char \<Rightarrow> bool" where
  "is_valid_emphasis_open text pos delim =
     (if delim = CHR ''*'' \<and> pos = 0 \<and> startswith text ''* '' then False
      else if length text \<le> pos + 1 then False
      else if isspace (text ! (pos + 1)) then False
      else if 0 < pos \<and> \<not> isspace (text ! (pos - 1))
              \<and> text ! (pos - 1) \<notin> set (''([{'' @ [CHR 0x22] @ [CHR 0x27]) then False
      else True)"

definition is_valid_emphasis_close :: "string \<Rightarrow> nat \<Rightarrow> char \<Rightarrow> bool" where
  "is_valid_emphasis_close text pos delim =
     (if pos = 0 then False
      else if isspace (text ! (pos - 1)) then False
      else if pos + 1 < length text \<and> \<not> isspace (text ! (pos + 1))
              \<and> text ! (pos + 1) \<notin> set (''.,;:!?)]}'' @ [CHR 0x22] @ [CHR 0x27]) then False
      else True)"

definition NULL_SEP :: string where
  "NULL_SEP = [CHR 0x00]"

type_synonym scan_state = "nat \<times> string \<times> token list"

definition scan_paren_math :: "string \<Rightarrow> nat \<Rightarrow> string \<Rightarrow> token list \<Rightarrow> scan_state option" where
  \<comment> \<open>inline math \<open>\( ... \)\<close>\<close>
  "scan_paren_math text i buffer tokens =
     (if startswith (drop i text) [CHR 0x5C, CHR ''('']
      then (case find_from text [CHR 0x5C, CHR '')''] (i + 2) of
              Some e \<Rightarrow>
                Some (e + 2, [],
                      flush_plaintext buffer tokens @ [(''math_inline'', slice text (i + 2) e)])
            | None \<Rightarrow> None)
      else None)"

definition display_math_end :: "string \<Rightarrow> nat \<Rightarrow> nat option" where
  \<comment> \<open>the index of the closing \<open>$$\<close> of a display-math span that opens at \<open>i\<close>\<close>
  "display_math_end text i =
     (if text ! i = CHR ''$'' \<and> i + 1 < length text \<and> text ! (i + 1) = CHR ''$''
      then find_from text ''$$'' (i + 2) else None)"

definition scan_display_math :: "string \<Rightarrow> nat \<Rightarrow> string \<Rightarrow> token list \<Rightarrow> scan_state option" where
  \<comment> \<open>display math \<open>$$ ... $$\<close>: kept as plain text\<close>
  "scan_display_math text i buffer tokens =
     (case display_math_end text i of
        Some e \<Rightarrow> Some (e + 2, buffer @ slice text i (e + 2), tokens)
      | None \<Rightarrow> None)"

definition closing_dollar :: "string \<Rightarrow> nat \<Rightarrow> nat option" where
  \<comment> \<open>the inner \<open>while j < len(text)\<close> loop: the first dollar sign after position \<open>i\<close>\<close>
  "closing_dollar text i =
     first_index_from (\<lambda>j. text ! j = CHR ''$'') (i + 1) (length text - (i + 1))"

definition scan_inline_math :: "string \<Rightarrow> nat \<Rightarrow> string \<Rightarrow> token list \<Rightarrow> scan_state" where
  \<comment> \<open>inline math \<open>$ ... $\<close>, entered when \<open>text[i]\<close> is a dollar sign\<close>
  "scan_inline_math text i buffer tokens =
     (case closing_dollar text i of
        Some closing \<Rightarrow>
          (let inner = slice text (i + 1) closing
           in if strip inner \<noteq> []
              then (closing + 1, [],
                    flush_plaintext buffer tokens @ [(''math_inline'', inner)])
              else (i + 1, buffer @ ''$'', tokens))
      | None \<Rightarrow> (i + 1, buffer @ ''$'', tokens))"

definition scan_link :: "string \<Rightarrow> nat \<Rightarrow> string \<Rightarrow> token list \<Rightarrow> scan_state option" where
  "scan_link text i buffer tokens =
     (if i + 1 < length text \<and> text ! i = CHR ''['' \<and> text ! (i + 1) = CHR ''[''
      then (case find_from text '']]'' (i + 2) of
              Some e \<Rightarrow>
                (let inner = slice text (i + 2) e;
                     url_desc = (case find_from inner ''][''  0 of
                                   Some k \<Rightarrow> (take k inner, drop (k + 2) inner)
                                 | None \<Rightarrow> (inner, inner))
                 in Some (e + 2, [],
                          flush_plaintext buffer tokens
                          @ [(''link'', strip (fst url_desc) @ NULL_SEP @ strip (snd url_desc))]))
            | None \<Rightarrow> None)
      else None)"

definition scan_emphasis :: "string \<Rightarrow> nat \<Rightarrow> string \<Rightarrow> token list \<Rightarrow> scan_state" where
  "scan_emphasis text i buffer tokens =
     (let ch = text ! i
      in case delimiter_to_type ch of
           Some ty \<Rightarrow>
             if is_valid_emphasis_open text i ch then
               (case first_index_from
                       (\<lambda>j. text ! j = ch \<and> is_valid_emphasis_close text j ch)
                       (i + 1) (length text - (i + 1)) of
                  Some j \<Rightarrow>
                    (j + 1, [], flush_plaintext buffer tokens @ [(ty, slice text (i + 1) j)])
                | None \<Rightarrow> (i + 1, buffer @ [ch], tokens))
             else (i + 1, buffer @ [ch], tokens)
         | None \<Rightarrow> (i + 1, buffer @ [ch], tokens))"

definition tokenize_step :: "string \<Rightarrow> nat \<Rightarrow> string \<Rightarrow> token list \<Rightarrow> scan_state" where
  \<comment> \<open>one iteration of the \<open>while i < len(text)\<close> loop\<close>
  "tokenize_step text i buffer tokens =
     (case scan_paren_math text i buffer tokens of
        Some st \<Rightarrow> st
      | None \<Rightarrow>
         (case scan_display_math text i buffer tokens of
            Some st \<Rightarrow> st
          | None \<Rightarrow>
             if text ! i = CHR ''$'' then scan_inline_math text i buffer tokens
             else (case scan_link text i buffer tokens of
                     Some st \<Rightarrow> st
                   | None \<Rightarrow> scan_emphasis text i buffer tokens)))"

lemma scan_paren_math_advances:
  "scan_paren_math text i buffer tokens = Some st \<Longrightarrow> i < fst st"
  by (auto simp: scan_paren_math_def split: if_splits option.splits dest!: find_from_ge)

lemma scan_display_math_advances:
  "scan_display_math text i buffer tokens = Some st \<Longrightarrow> i < fst st"
  by (auto simp: scan_display_math_def display_math_end_def split: if_splits option.splits
           dest!: find_from_ge)

lemma scan_inline_math_advances: "i < fst (scan_inline_math text i buffer tokens)"
  by (auto simp: scan_inline_math_def closing_dollar_def Let_def split: option.splits
           dest!: first_index_from_ge)

lemma scan_link_advances:
  "scan_link text i buffer tokens = Some st \<Longrightarrow> i < fst st"
  by (auto simp: scan_link_def Let_def split: if_splits option.splits dest!: find_from_ge)

lemma scan_emphasis_advances: "i < fst (scan_emphasis text i buffer tokens)"
  by (auto simp: scan_emphasis_def Let_def split: option.splits dest!: first_index_from_ge)

lemma tokenize_step_advances: "i < fst (tokenize_step text i buffer tokens)"
  unfolding tokenize_step_def
  by (simp split: option.split
        add: scan_paren_math_advances scan_display_math_advances scan_inline_math_advances
             scan_link_advances scan_emphasis_advances)

function tokenize_loop :: "string \<Rightarrow> nat \<Rightarrow> string \<Rightarrow> token list \<Rightarrow> token list" where
  "tokenize_loop text i buffer tokens =
     (if i < length text
      then (let st = tokenize_step text i buffer tokens
            in tokenize_loop text (fst st) (fst (snd st)) (snd (snd st)))
      else flush_plaintext buffer tokens)"
  by pat_completeness auto
termination
proof (relation "measure (\<lambda>p. length (fst p) - fst (snd p))", goal_cases)
  case 1
  show ?case by simp
next
  case (2 s i buffer tokens st)
  have "i < fst (tokenize_step s i buffer tokens)"
    by (rule tokenize_step_advances)
  with 2 show ?case by simp
qed

definition tokenize_inline_org_markup :: "string \<Rightarrow> token list" where
  "tokenize_inline_org_markup text = tokenize_loop text 0 [] []"



section \<open>org_to_html.py: the math cache key\<close>

text \<open>
  \<open>math_image_url\<close> hashes a payload built from the stripped macro preamble and the math
  source, and writes a source file into the cache directory when none exists under that
  digest. \<open>hashlib.sha1(...).hexdigest()\<close> is a library function and is the parameter
  \<open>sha1_hexdigest\<close>; the cache directory is a map from file stems to file contents.
\<close>

type_synonym math_cache = "string \<rightharpoonup> string"

definition payload_for_hash :: "string \<Rightarrow> string \<Rightarrow> string" where
  "payload_for_hash preamble_macros math_src =
     strip preamble_macros @ [CHR 0x0A] @ ''%%MATH%%'' @ [CHR 0x0A] @ math_src"

definition math_digest :: "(string \<Rightarrow> string) \<Rightarrow> string \<Rightarrow> string \<Rightarrow> string" where
  "math_digest sha1_hexdigest math_src preamble_macros =
     sha1_hexdigest (payload_for_hash preamble_macros math_src)"

definition math_image_url ::
  "(string \<Rightarrow> string) \<Rightarrow> string \<Rightarrow> string \<Rightarrow> math_cache \<Rightarrow> string \<times> math_cache" where
  "math_image_url sha1_hexdigest math_src preamble_macros cache =
     (let macros = strip preamble_macros;
          digest = math_digest sha1_hexdigest math_src preamble_macros;
          content = ''%% org-math-cache-v1'' @ [CHR 0x0A] @ ''%% macros'' @ [CHR 0x0A]
                    @ macros @ [CHR 0x0A] @ ''%% math'' @ [CHR 0x0A] @ math_src @ [CHR 0x0A];
          cache' = (if cache digest = None then cache(digest \<mapsto> content) else cache)
      in (''/math/'' @ digest @ ''.svg'', cache'))"

section \<open>org_to_html.py: rendering inline tokens\<close>

definition escape_char :: "char \<Rightarrow> string" where
  "escape_char c =
     (if c = CHR ''&'' then ''&amp;''
      else if c = CHR ''<'' then ''&lt;''
      else if c = CHR ''>'' then ''&gt;''
      else if c = CHR 0x22 then ''&quot;''
      else if c = CHR 0x27 then ''&#x27;''
      else [c])"

definition escape_html :: "string \<Rightarrow> string" where
  \<comment> \<open>\<open>html.escape(text, quote=True)\<close>\<close>
  "escape_html s = concat (map escape_char s)"

definition lower_char :: "char \<Rightarrow> char" where
  "lower_char c =
     (let n = of_char c :: nat
      in if (65 \<le> n \<and> n \<le> 90) \<or> (192 \<le> n \<and> n \<le> 222 \<and> n \<noteq> 215)
         then char_of (n + 32) else c)"

definition lower :: "string \<Rightarrow> string" where
  "lower s = map lower_char s"

definition split_once :: "string \<Rightarrow> string \<Rightarrow> string \<times> string option" where
  \<comment> \<open>\<open>s.split(sep, 1)\<close>: the part before the first \<open>sep\<close> and, when \<open>sep\<close> occurs, the
      part after it\<close>
  "split_once s sep =
     (case find_from s sep 0 of
        Some k \<Rightarrow> (take k s, Some (drop (k + length sep) s))
      | None \<Rightarrow> (s, None))"

definition is_image_target :: "string \<Rightarrow> bool" where
  "is_image_target url =
     (let base = fst (split_once (fst (split_once url ''?'')) ''#'');
          base = lower base
      in list_ex (endswith base)
           [''.png'', ''.jpg'', ''.jpeg'', ''.gif'', ''.svg'', ''.webp'', ''.bmp''])"

definition normalize_image_src ::
  "(string \<Rightarrow> py_exception + string) \<Rightarrow> string \<Rightarrow> py_exception + string" where
  \<comment> \<open>\<open>urlparse(url).scheme\<close> is the parameter \<open>urlparse_scheme\<close>; \<open>urlparse\<close> raises
      \<open>ValueError\<close> on some inputs\<close>
  "normalize_image_src urlparse_scheme url =
     (let url = (if startswith url ''file:''
                 then dropWhile (\<lambda>c. c = CHR ''/'') (drop 5 url) else url)
      in case urlparse_scheme url of
           Inl e \<Rightarrow> Inl e
         | Inr scheme \<Rightarrow>
             if scheme \<noteq> [] \<or> startswith url ''/'' then Inr url
             else Inr (''/assets/'' @ url))"

definition render_inline_token ::
  "(string \<Rightarrow> string) \<Rightarrow> (string \<Rightarrow> py_exception + string) \<Rightarrow> string \<Rightarrow> token \<Rightarrow>
   math_cache \<Rightarrow> py_exception + string \<times> math_cache" where
  \<comment> \<open>the body of the \<open>for token_type, token_text in tokens\<close> loop: the text appended to
      \<open>out\<close>, and the math cache afterwards\<close>
  "render_inline_token sha1_hexdigest urlparse_scheme preamble_macros tok cache =
     (let token_type = fst tok; token_text = snd tok
      in if token_type = ''plaintext'' then Inr (escape_html token_text, cache)
         else if token_type = ''bold_text''
           then Inr (''<strong>'' @ escape_html token_text @ ''</strong>'', cache)
         else if token_type = ''italic_text''
           then Inr (''<em>'' @ escape_html token_text @ ''</em>'', cache)
         else if token_type = ''code''
           then Inr (''<code>'' @ escape_html token_text @ ''</code>'', cache)
         else if token_type = ''math_inline'' then
           (let r = math_image_url sha1_hexdigest token_text preamble_macros cache;
                src = fst r;
                alt = (if strip token_text \<noteq> [] then strip token_text else ''math'')
            in Inr (''<img src=\"'' @ escape_html src @ ''\" alt=\"'' @ escape_html alt
                    @ ''\" class=\"math-inline\" />'', snd r))
         else if token_type = ''link'' then
           (let parts = split_once token_text NULL_SEP;
                url = (case snd parts of Some l \<Rightarrow> fst parts | None \<Rightarrow> token_text);
                label = (case snd parts of Some l \<Rightarrow> l | None \<Rightarrow> token_text);
                url = strip url;
                label = (if strip label \<noteq> [] then strip label else url)
            in if is_image_target url then
                 (let alt_text = (if label \<noteq> [] then label else url)
                  in case normalize_image_src urlparse_scheme url of
                       Inl e \<Rightarrow> Inl e
                     | Inr web_url \<Rightarrow>
                         Inr (''<img src=\"'' @ escape_html web_url @ ''\" alt=\"''
                              @ escape_html alt_text @ ''\" title=\"'' @ escape_html alt_text
                              @ ''\" class=\"inline-image\" />'', cache))
               else Inr (''<a href=\"'' @ escape_html url @ ''\">'' @ escape_html label
                         @ ''</a>'', cache))
         else Inr (escape_html token_text, cache))"

fun render_inline_tokens_loop ::
  "(string \<Rightarrow> string) \<Rightarrow> (string \<Rightarrow> py_exception + string) \<Rightarrow> string \<Rightarrow> token list \<Rightarrow>
   string list \<Rightarrow> math_cache \<Rightarrow> py_exception + string \<times> math_cache" where
  "render_inline_tokens_loop h u macros [] out cache = Inr (concat out, cache)"
| "render_inline_tokens_loop h u macros (tok # tokens) out cache =
     (case render_inline_token h u macros tok cache of
        Inl e \<Rightarrow> Inl e
      | Inr r \<Rightarrow> render_inline_tokens_loop h u macros tokens (out @ [fst r]) (snd r))"

definition render_inline_tokens ::
  "(string \<Rightarrow> string) \<Rightarrow> (string \<Rightarrow> py_exception + string) \<Rightarrow> token list \<Rightarrow> string \<Rightarrow>
   math_cache \<Rightarrow> py_exception + string \<times> math_cache" where
  "render_inline_tokens sha1_hexdigest urlparse_scheme tokens preamble_macros cache =
     render_inline_tokens_loop sha1_hexdigest urlparse_scheme preamble_macros tokens [] cache"

text \<open>
  Text in which no character special to HTML stands for itself: the characters
  \<open>& < > " '\<close> occur only as the entities \<open>html.escape\<close> writes for them.
\<close>

inductive escaped_text :: "string \<Rightarrow> bool" where
  nil: "escaped_text []"
| plain: "c \<notin> set (''&<>'' @ [CHR 0x22, CHR 0x27]) \<Longrightarrow> escaped_text s \<Longrightarrow> escaped_text (c # s)"
| entity: "e \<in> set [''&amp;'', ''&lt;'', ''&gt;'', ''&quot;'', ''&#x27;''] \<Longrightarrow> escaped_text s \<Longrightarrow>
           escaped_text (e @ s)"

text \<open>
  The HTML that inline rendering may produce: the fixed markup of the six token kinds,
  with escaped text in every place that is filled from a token.
\<close>

inductive inline_html :: "string \<Rightarrow> bool" where
  empty: "inline_html []"
| plaintext: "escaped_text s \<Longrightarrow> inline_html r \<Longrightarrow> inline_html (s @ r)"
| strong: "escaped_text s \<Longrightarrow> inline_html r \<Longrightarrow>
           inline_html (''<strong>'' @ s @ ''</strong>'' @ r)"
| em: "escaped_text s \<Longrightarrow> inline_html r \<Longrightarrow> inline_html (''<em>'' @ s @ ''</em>'' @ r)"
| code: "escaped_text s \<Longrightarrow> inline_html r \<Longrightarrow> inline_html (''<code>'' @ s @ ''</code>'' @ r)"
| math: "escaped_text src \<Longrightarrow> escaped_text alt \<Longrightarrow> inline_html r \<Longrightarrow>
         inline_html (''<img src=\"'' @ src @ ''\" alt=\"'' @ alt
                      @ ''\" class=\"math-inline\" />'' @ r)"
| image: "escaped_text src \<Longrightarrow> escaped_text alt \<Longrightarrow> escaped_text title \<Longrightarrow> inline_html r \<Longrightarrow>
          inline_html (''<img src=\"'' @ src @ ''\" alt=\"'' @ alt @ ''\" title=\"'' @ title
                       @ ''\" class=\"inline-image\" />'' @ r)"
| anchor: "escaped_text href \<Longrightarrow> escaped_text label \<Longrightarrow> inline_html r \<Longrightarrow>
           inline_html (''<a href=\"'' @ href @ ''\">'' @ label @ ''</a>'' @ r)"

section \<open>org_to_html.py: the table formula evaluator\<close>

subsection \<open>Characters, numbers as text\<close>

definition isdigit :: "char \<Rightarrow> bool" where
  \<comment> \<open>the regular expression class \<open>\d\<close>\<close>
  "isdigit c = (48 \<le> (of_char c :: nat) \<and> (of_char c :: nat) \<le> 57)"

definition isword :: "char \<Rightarrow> bool" where
  \<comment> \<open>the regular expression class \<open>\w\<close>\<close>
  "isword c =
     (let n = of_char c :: nat
      in (48 \<le> n \<and> n \<le> 57) \<or> (65 \<le> n \<and> n \<le> 90) \<or> n = 95 \<or> (97 \<le> n \<and> n \<le> 122)
         \<or> n \<in> {170, 178, 179, 181, 185, 186, 188, 189, 190}
         \<or> (192 \<le> n \<and> n \<le> 214) \<or> (216 \<le> n \<and> n \<le> 246) \<or> 248 \<le> n)"

definition digit_char :: "nat \<Rightarrow> char" where
  "digit_char d = char_of (48 + d)"

fun str_nat :: "nat \<Rightarrow> string" where
  \<comment> \<open>\<open>str(n)\<close> for a non-negative integer\<close>
  "str_nat n = (if n < 10 then [digit_char n] else str_nat (n div 10) @ [digit_char (n mod 10)])"

declare str_nat.simps [simp del]

definition str_int :: "int \<Rightarrow> string" where
  "str_int i = (if i < 0 then ''-'' @ str_nat (nat (- i)) else str_nat (nat i))"

definition int_of_digits :: "string \<Rightarrow> int option" where
  \<comment> \<open>\<open>int(s)\<close> on a string of decimal digits; \<open>None\<close> is \<open>ValueError\<close>\<close>
  "int_of_digits s =
     (if s \<noteq> [] \<and> list_all isdigit s
      then Some (foldl (\<lambda>a c. 10 * a + (int (of_char c) - 48)) 0 s)
      else None)"

definition replace_char :: "char \<Rightarrow> string \<Rightarrow> string \<Rightarrow> string" where
  \<comment> \<open>\<open>s.replace(c, r)\<close> for a one-character \<open>c\<close>\<close>
  "replace_char c r s = concat (map (\<lambda>x. if x = c then r else [x]) s)"

definition list_get :: "'a list \<Rightarrow> int \<Rightarrow> py_exception + 'a" where
  \<comment> \<open>\<open>xs[i]\<close>: an index below zero is taken from the end of the list, and
      \<open>IndexError\<close> is raised when no element stands at the index\<close>
  "list_get xs i =
     (if 0 \<le> i \<and> i < int (length xs) then Inr (xs ! nat i)
      else if i < 0 \<and> - i \<le> int (length xs) then Inr (xs ! nat (int (length xs) + i))
      else Inl (IndexError ''list index out of range''))"

subsection \<open>Python floats\<close>

text \<open>
  A float is its exact value, an infinity or a NaN. \<open>round\<close> is Python's rounding of a
  float to the nearest integer, ties to even; it raises on an infinity and on a NaN.
\<close>

datatype pyfloat = Finite rat | PosInf | NegInf | NaN

definition round_half_even :: "rat \<Rightarrow> int" where
  "round_half_even q =
     (let f = \<lfloor>q\<rfloor>; d = q - of_int f
      in if d < 1 / 2 then f else if 1 / 2 < d then f + 1 else if even f then f else f + 1)"

definition py_round :: "pyfloat \<Rightarrow> py_exception + int" where
  "py_round x =
     (case x of
        Finite q \<Rightarrow> Inr (round_half_even q)
      | NaN \<Rightarrow> Inl (ValueError ''cannot convert float NaN to integer'')
      | _ \<Rightarrow> Inl (OverflowError ''cannot convert float infinity to integer''))"

definition float_1e_minus_12 :: rat where
  \<comment> \<open>the float that the literal \<open>1e-12\<close> denotes\<close>
  "float_1e_minus_12 = 4951760157141521 / 4951760157141521099596496896"

subsection \<open>The Python runtime\<close>

text \<open>
  An \<open>ast.AST\<close> node: its class, its identifier field where it has one (\<open>Name.id\<close>),
  and its child nodes in the order \<open>ast.iter_child_nodes\<close> yields them (for a \<open>Call\<close>:
  \<open>func\<close>, then the arguments, then the keywords).
\<close>

datatype ast = AST (node_class: string) (ident: string) (child_nodes: "ast list")

datatype env_value = Builtin string | Float pyfloat

text \<open>
  The library functions the evaluator calls are parameters of the model:
  \<open>ast.parse(expr, mode="eval")\<close>; \<open>float(eval(compile(node, ...), {"__builtins__": {}},
  env))\<close>; \<open>float(s)\<close> on a string (\<open>None\<close> is \<open>ValueError\<close>); and \<open>str(x)\<close> on a float.
\<close>

record python_runtime =
  ast_parse :: "string \<Rightarrow> py_exception + ast"
  py_eval :: "ast \<Rightarrow> (string \<rightharpoonup> env_value) \<Rightarrow> py_exception + pyfloat"
  float_of_str :: "string \<Rightarrow> pyfloat option"
  float_str :: "pyfloat \<Rightarrow> string"

subsection \<open>\<open>_coerce_number\<close>, \<open>_safe_eval\<close>, \<open>_format_result\<close>\<close>

definition coerce_number :: "('z) python_runtime_scheme \<Rightarrow> string \<Rightarrow> pyfloat" where
  "coerce_number rt v =
     (let s = strip v
      in if s = [] then Finite 0
         else (case float_of_str rt s of
                 Some x \<Rightarrow> x
               | None \<Rightarrow>
                   (case float_of_str rt (replace_char (CHR '','') ''.'' s) of
                      Some x \<Rightarrow> x
                    | None \<Rightarrow> Finite 0)))"

definition allowed_funcs :: "string list" where
  "allowed_funcs = [''abs'', ''round'', ''min'', ''max'', ''int'', ''float'', ''sqrt'']"

definition allowed_nodes :: "string list" where
  "allowed_nodes =
     [''Expression'', ''BinOp'', ''UnaryOp'', ''Add'', ''Sub'', ''Mult'', ''Div'', ''Mod'',
      ''Pow'', ''USub'', ''UAdd'', ''Constant'', ''Name'', ''Load'', ''Call'']"

fun ast_size :: "ast \<Rightarrow> nat" where
  "ast_size (AST c i ch) = Suc (sum_list (map ast_size ch))"

function ast_walk :: "ast list \<Rightarrow> ast list" where
  \<comment> \<open>\<open>ast.walk\<close>, from its queue: breadth first\<close>
  "ast_walk [] = []"
| "ast_walk (n # todo) = n # ast_walk (todo @ child_nodes n)"
  by pat_completeness auto
termination
  by (relation "measure (\<lambda>todo. sum_list (map ast_size todo))") (auto, case_tac n, simp)

fun check_nodes :: "ast list \<Rightarrow> py_exception option" where
  \<comment> \<open>the \<open>for sub in ast.walk(node)\<close> loop: the exception it raises, if any\<close>
  "check_nodes [] = None"
| "check_nodes (sub # rest) =
     (if node_class sub \<notin> set allowed_nodes
      then Some (ValueError (''Disallowed expression node: '' @ node_class sub))
      else if node_class sub = ''Call'' then
        (case child_nodes sub of
           [] \<Rightarrow> Some (OtherError ''AttributeError'')
         | func # args \<Rightarrow>
             if node_class func \<noteq> ''Name''
             then Some (ValueError ''Only simple function calls allowed'')
             else if ident func \<notin> set allowed_funcs
             then Some (ValueError (''Function not allowed: '' @ ident func))
             else check_nodes rest)
      else check_nodes rest)"

definition safe_eval ::
  "('z) python_runtime_scheme \<Rightarrow> string \<Rightarrow> (string \<rightharpoonup> pyfloat) \<Rightarrow> py_exception + pyfloat" where
  "safe_eval rt expr names =
     (case ast_parse rt expr of
        Inl e \<Rightarrow> Inl e
      | Inr node \<Rightarrow>
          (case check_nodes (ast_walk [node]) of
             Some e \<Rightarrow> Inl e
           | None \<Rightarrow>
               (let env = map_of (map (\<lambda>f. (f, Builtin f)) allowed_funcs)
                          ++ (map_option Float \<circ> names)
                in py_eval rt node env)))"

definition format_result :: "('z) python_runtime_scheme \<Rightarrow> pyfloat \<Rightarrow> py_exception + string" where
  "format_result rt x =
     (case py_round x of
        Inl e \<Rightarrow> Inl e
      | Inr n \<Rightarrow>
          (case x of
             Finite q \<Rightarrow>
               if \<bar>q - of_int n\<bar> < float_1e_minus_12 then Inr (str_int n)
               else Inr (float_str rt x)
           | _ \<Rightarrow> Inr (float_str rt x)))"

subsection \<open>\<open>_parse_tblfm_assignments\<close>\<close>

definition tblfm_lhs_match :: "string \<Rightarrow> bool" where
  \<comment> \<open>\<open>_TBLFM_LHS_RE.match\<close>, the pattern \<open>^\s*(\$\>|\$\d+)\s*$\<close>\<close>
  "tblfm_lhs_match s =
     (case lstrip s of
        c # r \<Rightarrow>
          c = CHR ''$'' \<and>
          ((r \<noteq> [] \<and> hd r = CHR ''>'' \<and> list_all isspace (tl r))
           \<or> (takeWhile isdigit r \<noteq> [] \<and> list_all isspace (dropWhile isdigit r)))
      | [] \<Rightarrow> False)"

definition parse_tblfm_assignment :: "nat \<Rightarrow> string \<Rightarrow> (int \<times> string) option" where
  \<comment> \<open>one iteration of the loop over the formulas: the pair appended, if any\<close>
  "parse_tblfm_assignment max_cols raw =
     (let core = strip (fst (split_once raw '';''))
      in case snd (split_once core ''='') of
           None \<Rightarrow> None
         | Some r \<Rightarrow>
             (let lhs = strip (fst (split_once core ''='')); rhs = strip r
              in if rhs = [] then None
                 else if \<not> tblfm_lhs_match lhs then None
                 else (case (if lhs = ''$>'' then Some (int max_cols)
                             else int_of_digits (drop 1 lhs)) of
                         None \<Rightarrow> None
                       | Some dest \<Rightarrow> if dest \<le> 0 then None else Some (dest, rhs))))"

definition parse_tblfm_assignments :: "string list \<Rightarrow> nat \<Rightarrow> (int \<times> string) list" where
  "parse_tblfm_assignments formulas max_cols =
     List.map_filter (parse_tblfm_assignment max_cols) formulas"

subsection \<open>Rewriting a formula into an expression\<close>

fun sub_prevrow_col :: "nat \<Rightarrow> string \<Rightarrow> string" where
  \<comment> \<open>\<open>_PREVROW_COL_RE.sub\<close>: every \<open>@-1$K\<close> becomes \<open>pK\<close>. The first argument counts the
      characters of a match still to be skipped.\<close>
  "sub_prevrow_col skip [] = []"
| "sub_prevrow_col skip (c # cs) =
     (if 0 < skip then sub_prevrow_col (skip - 1) cs
      else (let ds = takeWhile isdigit (drop 4 (c # cs))
            in if startswith (c # cs) ''@-1$'' \<and> ds \<noteq> []
               then ''p'' @ ds @ sub_prevrow_col (3 + length ds) cs
               else c # sub_prevrow_col 0 cs))"

fun sub_prevrow_samecol :: "string \<Rightarrow> char option \<Rightarrow> nat \<Rightarrow> string \<Rightarrow> string" where
  \<comment> \<open>\<open>_PREVROW_SAMECOL_RE.sub\<close>: every \<open>@-1\<close> that neither follows nor precedes a word
      character or a dollar sign becomes the replacement. The second argument is the
      character before the current position.\<close>
  "sub_prevrow_samecol repl prev skip [] = []"
| "sub_prevrow_samecol repl prev skip (c # cs) =
     (if 0 < skip then sub_prevrow_samecol repl (Some c) (skip - 1) cs
      else if startswith (c # cs) ''@-1''
              \<and> (case prev of None \<Rightarrow> True | Some p \<Rightarrow> \<not> (isword p \<or> p = CHR ''$''))
              \<and> (case drop 3 (c # cs) of [] \<Rightarrow> True | d # r \<Rightarrow> \<not> (isword d \<or> d = CHR ''$''))
           then repl @ sub_prevrow_samecol repl (Some c) 2 cs
           else c # sub_prevrow_samecol repl (Some c) 0 cs)"

fun sub_colref :: "nat \<Rightarrow> string \<Rightarrow> string" where
  \<comment> \<open>\<open>_COLREF_RE.sub\<close>: every \<open>$K\<close> becomes \<open>cK\<close>\<close>
  "sub_colref skip [] = []"
| "sub_colref skip (c # cs) =
     (if 0 < skip then sub_colref (skip - 1) cs
      else (let ds = takeWhile isdigit cs
            in if c = CHR ''$'' \<and> ds \<noteq> []
               then ''c'' @ ds @ sub_colref (length ds) cs
               else c # sub_colref 0 cs))"

definition translate_formula :: "int \<Rightarrow> string \<Rightarrow> string" where
  \<comment> \<open>the expression \<open>expr\<close> built from \<open>rhs\<close> for the destination column\<close>
  "translate_formula dest_col rhs =
     (let expr = strip rhs;
          expr = replace_char (CHR ''^'') ''**'' expr;
          expr = sub_prevrow_col 0 expr;
          expr = sub_prevrow_samecol (''p'' @ str_int dest_col) None 0 expr;
          expr = sub_colref 0 expr
      in expr)"

subsection \<open>\<open>_apply_column_formulas_to_table\<close>\<close>

datatype table_row = Row (cells: "string list") | Hline

definition max_cols_of :: "table_row list \<Rightarrow> nat" where
  "max_cols_of table_rows =
     foldl (\<lambda>m r. case r of Row cs \<Rightarrow> max m (length cs) | Hline \<Rightarrow> m) 0 table_rows"

definition pad_rows :: "nat \<Rightarrow> table_row list \<Rightarrow> table_row list" where
  "pad_rows max_cols table_rows =
     map (\<lambda>r. case r of
                 Row cs \<Rightarrow> if length cs < max_cols
                            then Row (cs @ replicate (max_cols - length cs) [])
                            else Row cs
               | Hline \<Rightarrow> Hline) table_rows"

definition is_row :: "table_row \<Rightarrow> bool" where
  "is_row r = (case r of Row cs \<Rightarrow> True | Hline \<Rightarrow> False)"

fun find_first_hline :: "nat \<Rightarrow> table_row list \<Rightarrow> nat option" where
  \<comment> \<open>header detection: the first rule with a data row below it\<close>
  "find_first_hline i [] = None"
| "find_first_hline i (r # rs) =
     (if r = Hline \<and> list_ex is_row rs then Some i else find_first_hline (i + 1) rs)"

definition is_header_row :: "nat option \<Rightarrow> nat \<Rightarrow> bool" where
  "is_header_row first_hline idx = (case first_hline of None \<Rightarrow> False | Some h \<Rightarrow> idx < h)"

fun bind_columns ::
  "string \<Rightarrow> (string \<Rightarrow> pyfloat) \<Rightarrow> string list option \<Rightarrow> nat list \<Rightarrow> (string \<rightharpoonup> pyfloat) \<Rightarrow>
   py_exception + (string \<rightharpoonup> pyfloat)" where
  \<comment> \<open>a \<open>for col in range(1, max_cols + 1)\<close> loop that binds \<open>c1..cN\<close> or \<open>p1..pN\<close>; with
      no row given, every name is bound to \<open>0.0\<close>\<close>
  "bind_columns prefix coerce row [] names = Inr names"
| "bind_columns prefix coerce row (col # cols) names =
     (case row of
        None \<Rightarrow> bind_columns prefix coerce row cols (names(prefix @ str_nat col \<mapsto> Finite 0))
      | Some cs \<Rightarrow>
          (case list_get cs (int col - 1) of
             Inl e \<Rightarrow> Inl e
           | Inr v \<Rightarrow> bind_columns prefix coerce row cols (names(prefix @ str_nat col \<mapsto> coerce v))))"

definition apply_assignment ::
  "('z) python_runtime_scheme \<Rightarrow> nat \<Rightarrow> int \<times> string \<Rightarrow> string list \<times> (string \<rightharpoonup> pyfloat) \<Rightarrow>
   py_exception + string list \<times> (string \<rightharpoonup> pyfloat)" where
  \<comment> \<open>the body of the \<open>for dest_col, rhs in assignments\<close> loop, on the row's cells and the
      names\<close>
  "apply_assignment rt max_cols assignment st =
     (let dest_col = fst assignment; rhs = snd assignment; cs = fst st; names = snd st;
          expr = translate_formula dest_col rhs
      in case safe_eval rt expr names of
           Inl e \<Rightarrow> Inr (cs, names)
         | Inr result \<Rightarrow>
             (case (if 1 \<le> dest_col \<and> dest_col \<le> int max_cols
                    then (case format_result rt result of
                            Inl e \<Rightarrow> Inl e
                          | Inr s \<Rightarrow> Inr (cs[nat (dest_col - 1) := s]))
                    else Inr cs) of
                Inl e \<Rightarrow> Inl e
              | Inr cs' \<Rightarrow>
                  (case list_get cs' (dest_col - 1) of
                     Inl e \<Rightarrow> Inl e
                   | Inr v \<Rightarrow>
                       Inr (cs', names(''c'' @ str_int dest_col \<mapsto> coerce_number rt v)))))"

fun apply_assignments ::
  "('z) python_runtime_scheme \<Rightarrow> nat \<Rightarrow> (int \<times> string) list \<Rightarrow>
   string list \<times> (string \<rightharpoonup> pyfloat) \<Rightarrow> py_exception + string list \<times> (string \<rightharpoonup> pyfloat)" where
  "apply_assignments rt max_cols [] st = Inr st"
| "apply_assignments rt max_cols (a # as) st =
     (case apply_assignment rt max_cols a st of
        Inl e \<Rightarrow> Inl e
      | Inr st' \<Rightarrow> apply_assignments rt max_cols as st')"

fun apply_rows ::
  "('z) python_runtime_scheme \<Rightarrow> nat \<Rightarrow> (int \<times> string) list \<Rightarrow> nat option \<Rightarrow> nat \<Rightarrow>
   string list option \<Rightarrow> table_row list \<Rightarrow> py_exception + table_row list" where
  \<comment> \<open>the \<open>for idx, r in enumerate(table_rows)\<close> loop, from index \<open>idx\<close> on, with the cells
      of the previous data row\<close>
  "apply_rows rt max_cols assignments first_hline idx prev [] = Inr []"
| "apply_rows rt max_cols assignments first_hline idx prev (Hline # rs) =
     (case apply_rows rt max_cols assignments first_hline (idx + 1) prev rs of
        Inl e \<Rightarrow> Inl e
      | Inr rs' \<Rightarrow> Inr (Hline # rs'))"
| "apply_rows rt max_cols assignments first_hline idx prev (Row cs # rs) =
     (if is_header_row first_hline idx
      then (case apply_rows rt max_cols assignments first_hline (idx + 1) prev rs of
              Inl e \<Rightarrow> Inl e
            | Inr rs' \<Rightarrow> Inr (Row cs # rs'))
      else (case bind_columns ''c'' (coerce_number rt) (Some cs) [1 ..< max_cols + 1] Map.empty of
              Inl e \<Rightarrow> Inl e
            | Inr names \<Rightarrow>
                (case bind_columns ''p'' (coerce_number rt) prev [1 ..< max_cols + 1] names of
                   Inl e \<Rightarrow> Inl e
                 | Inr names \<Rightarrow>
                     (case apply_assignments rt max_cols assignments (cs, names) of
                        Inl e \<Rightarrow> Inl e
                      | Inr st \<Rightarrow>
                          (case apply_rows rt max_cols assignments first_hline (idx + 1)
                                  (Some (fst st)) rs of
                             Inl e \<Rightarrow> Inl e
                           | Inr rs' \<Rightarrow> Inr (Row (fst st) # rs'))))))"

definition apply_column_formulas_to_table ::
  "('z) python_runtime_scheme \<Rightarrow> table_row list \<Rightarrow> string list \<Rightarrow> py_exception + table_row list" where
  \<comment> \<open>the rows after the call, or the exception that reaches the caller\<close>
  "apply_column_formulas_to_table rt table_rows tblfm_formulas =
     (let max_cols = max_cols_of table_rows
      in if max_cols = 0 then Inr table_rows
         else (let table_rows = pad_rows max_cols table_rows;
                   assignments = parse_tblfm_assignments tblfm_formulas max_cols
               in if assignments = [] then Inr table_rows
                  else apply_rows rt max_cols assignments (find_first_hline 0 table_rows) 0 None
                         table_rows))"

subsection \<open>A fragment of CPython, for running examples\<close>

text \<open>
  A runtime for the examples below. It covers a fragment of CPython and agrees with it
  there: an expression is a name or the sum of two names (identifiers of ASCII letters,
  digits and underscores that are no keywords, with no blanks), and a number is a string
  of at most 15 decimal digits, so that it and the sum of two such numbers are floats
  exactly. Outside the fragment the runtime reports a failure of its own, which says
  nothing about CPython.
\<close>

definition python_keywords :: "string list" where
  "python_keywords =
     [''False'', ''None'', ''True'', ''and'', ''as'', ''assert'', ''async'', ''await'',
      ''break'', ''class'', ''continue'', ''def'', ''del'', ''elif'', ''else'', ''except'',
      ''finally'', ''for'', ''from'', ''global'', ''if'', ''import'', ''in'', ''is'',
      ''lambda'', ''nonlocal'', ''not'', ''or'', ''pass'', ''raise'', ''return'', ''try'',
      ''while'', ''with'', ''yield'']"

definition is_identifier :: "string \<Rightarrow> bool" where
  "is_identifier s =
     (s \<noteq> [] \<and> \<not> isdigit (hd s) \<and> s \<notin> set python_keywords
      \<and> list_all (\<lambda>c. isword c \<and> of_char c < (128 :: nat)) s)"

definition name_node :: "string \<Rightarrow> ast" where
  "name_node n = AST ''Name'' n [AST ''Load'' [] []]"

definition fragment_parse :: "string \<Rightarrow> py_exception + ast" where
  "fragment_parse s =
     (case split_once s ''+'' of
        (l, Some r) \<Rightarrow>
          if is_identifier l \<and> is_identifier r
          then Inr (AST ''Expression'' []
                      [AST ''BinOp'' [] [name_node l, AST ''Add'' [] [], name_node r]])
          else Inl (OtherError ''outside the fragment'')
      | (l, None) \<Rightarrow>
          if is_identifier l then Inr (AST ''Expression'' [] [name_node l])
          else Inl (OtherError ''outside the fragment''))"

definition fragment_lookup :: "(string \<rightharpoonup> env_value) \<Rightarrow> ast \<Rightarrow> py_exception + pyfloat" where
  "fragment_lookup env n =
     (case env (ident n) of
        Some (Float x) \<Rightarrow> Inr x
      | Some (Builtin f) \<Rightarrow> Inl (OtherError ''TypeError'')
      | None \<Rightarrow> Inl (OtherError ''NameError''))"

definition fragment_eval :: "ast \<Rightarrow> (string \<rightharpoonup> env_value) \<Rightarrow> py_exception + pyfloat" where
  "fragment_eval node env =
     (case child_nodes node of
        [AST c i []] \<Rightarrow> Inl (OtherError ''outside the fragment'')
      | [AST c i [ctx]] \<Rightarrow> fragment_lookup env (AST c i [ctx])
      | [AST c i [l, op, r]] \<Rightarrow>
          (case (fragment_lookup env l, fragment_lookup env r) of
             (Inr (Finite a), Inr (Finite b)) \<Rightarrow> Inr (Finite (a + b))
           | (Inl e, y) \<Rightarrow> Inl e
           | (x, Inl e) \<Rightarrow> Inl e
           | (x, y) \<Rightarrow> Inl (OtherError ''outside the fragment''))
      | other \<Rightarrow> Inl (OtherError ''outside the fragment''))"

definition fragment_float_of_str :: "string \<Rightarrow> pyfloat option" where
  "fragment_float_of_str s =
     (if length s \<le> 15 then map_option (\<lambda>i. Finite (of_int i)) (int_of_digits s) else None)"

definition cpython_fragment :: python_runtime where
  "cpython_fragment =
     \<lparr> ast_parse = fragment_parse, py_eval = fragment_eval,
       float_of_str = fragment_float_of_str, float_str = (\<lambda>x. ''?'') \<rparr>"

subsection \<open>The nodes of an expression\<close>

fun subnodes :: "ast \<Rightarrow> ast list" where
  \<comment> \<open>a node and all its descendants\<close>
  "subnodes (AST c i ch) = AST c i ch # concat (map subnodes ch)"

definition call_allowed :: "ast \<Rightarrow> bool" where
  \<comment> \<open>a call whose callee is a plain name on the allow-list\<close>
  "call_allowed sub =
     (case child_nodes sub of
        [] \<Rightarrow> False
      | func # args \<Rightarrow> node_class func = ''Name'' \<and> ident func \<in> set allowed_funcs)"

definition node_rejected :: "ast \<Rightarrow> bool" where
  "node_rejected sub =
     (node_class sub \<notin> set allowed_nodes \<or> (node_class sub = ''Call'' \<and> \<not> call_allowed sub))"

section \<open>org_parser.py: events, state and configuration\<close>

subsection \<open>More string helpers\<close>

fun split_on :: "string \<Rightarrow> nat \<Rightarrow> string \<Rightarrow> string \<Rightarrow> string list" where
  \<comment> \<open>the scan behind \<open>s.split(sep)\<close>: characters of a separator still to be skipped, the
      field collected so far, the rest of the string\<close>
  "split_on sep skip cur [] = [cur]"
| "split_on sep skip cur (c # cs) =
     (if 0 < skip then split_on sep (skip - 1) cur cs
      else if startswith (c # cs) sep then cur # split_on sep (length sep - 1) [] cs
      else split_on sep 0 (cur @ [c]) cs)"

definition split_all :: "string \<Rightarrow> string \<Rightarrow> string list" where
  \<comment> \<open>\<open>s.split(sep)\<close> for a non-empty separator\<close>
  "split_all s sep = split_on sep 0 [] s"

fun split_fields :: "string \<Rightarrow> string \<Rightarrow> string list" where
  \<comment> \<open>the scan behind \<open>s.split()\<close>: the field collected so far, the rest of the string\<close>
  "split_fields cur [] = (if cur = [] then [] else [cur])"
| "split_fields cur (c # cs) =
     (if isspace c then (if cur = [] then split_fields [] cs else cur # split_fields [] cs)
      else split_fields (cur @ [c]) cs)"

definition split_ws :: "string \<Rightarrow> string list" where
  \<comment> \<open>\<open>s.split()\<close>\<close>
  "split_ws s = split_fields [] s"

fun join :: "string \<Rightarrow> string list \<Rightarrow> string" where
  "join sep [] = []"
| "join sep [x] = x"
| "join sep (x # y # ys) = x @ sep @ join sep (y # ys)"

type_synonym str_dict = "(string \<times> string) list"

fun dict_set :: "string \<Rightarrow> string \<Rightarrow> str_dict \<Rightarrow> str_dict" where
  \<comment> \<open>\<open>d[k] = v\<close> on a dictionary kept in insertion order\<close>
  "dict_set k v [] = [(k, v)]"
| "dict_set k v (p # ps) = (if fst p = k then (k, v) # ps else p # dict_set k v ps)"

definition dict_or_none :: "str_dict \<Rightarrow> str_dict option" where
  \<comment> \<open>\<open>d or None\<close>\<close>
  "dict_or_none d = (if d = [] then None else Some d)"

definition value_after_colon :: "string \<Rightarrow> string" where
  \<comment> \<open>\<open>line.split(":", 1)[1].strip() if ":" in line else ""\<close>\<close>
  "value_after_colon line =
     (case snd (split_once line '':'') of Some v \<Rightarrow> strip v | None \<Rightarrow> [])"

subsection \<open>Events\<close>

text \<open>The payload of an event is a dictionary from keys to Python values.\<close>

datatype pyval =
    PNone
  | PBool bool
  | PInt int
  | PStr string
  | PList "pyval list"
  | PTuple "pyval list"
  | PDict "(string \<times> pyval) list"

datatype OrgEvent = OrgEvent (event_type: string) (event_data: "(string \<times> pyval) list")

definition opt_str :: "string option \<Rightarrow> pyval" where
  "opt_str x = (case x of None \<Rightarrow> PNone | Some s \<Rightarrow> PStr s)"

definition str_list :: "string list \<Rightarrow> pyval" where
  "str_list xs = PList (map PStr xs)"

definition dict_val :: "str_dict \<Rightarrow> pyval" where
  "dict_val d = PDict (map (\<lambda>p. (fst p, PStr (snd p))) d)"

definition opt_dict :: "str_dict option \<Rightarrow> pyval" where
  "opt_dict x = (case x of None \<Rightarrow> PNone | Some d \<Rightarrow> dict_val d)"

definition tokens_val :: "token list \<Rightarrow> pyval" where
  "tokens_val ts = PList (map (\<lambda>t. PTuple [PStr (fst t), PStr (snd t)]) ts)"

subsection \<open>Parser state\<close>

text \<open>
  \<open>OrgState\<close>, with the headers of its \<open>OrgPreamble\<close> as the field
  \<open>preamble_headers\<close>. A Python list used as a stack has its top at the end.
\<close>

record OrgState =
  preamble_headers :: str_dict
  is_in_preamble :: bool
  is_inside_block :: bool
  current_block_name :: "string option"
  last_block_event :: string
  block_stack :: "string list"
  block_verbatim_stack :: "bool list"
  current_block_is_verbatim :: bool
  is_inside_verbatim_block :: bool
  src_options_stack :: "str_dict option list"
  current_heading_level :: "nat option"
  current_heading_tags :: "string list option"
  src_block_options :: "str_dict option"
  pending_anchor :: "string option"
  pending_caption_tokens :: "token list option"
  pending_html_attr :: "str_dict option"
  is_inside_drawer :: bool
  current_drawer_name :: "string option"
  current_drawer_lines :: "string list option"
  is_inside_comment :: bool
  current_comment_anchor :: "string option"
  current_comment_lines :: "string list option"
  latex_macro_lines :: "string list"
  latex_macro_set :: "string set"

definition fresh_state :: OrgState where
  \<comment> \<open>\<open>OrgState()\<close>\<close>
  "fresh_state =
     \<lparr> preamble_headers = [], is_in_preamble = True, is_inside_block = False,
       current_block_name = None, last_block_event = [], block_stack = [],
       block_verbatim_stack = [], current_block_is_verbatim = False,
       is_inside_verbatim_block = False, src_options_stack = [],
       current_heading_level = None, current_heading_tags = None, src_block_options = None,
       pending_anchor = None, pending_caption_tokens = None, pending_html_attr = None,
       is_inside_drawer = False, current_drawer_name = None, current_drawer_lines = None,
       is_inside_comment = False, current_comment_anchor = None,
       current_comment_lines = None, latex_macro_lines = [], latex_macro_set = {} \<rparr>"

subsection \<open>Configuration\<close>

text \<open>
  \<open>OrgReaderConfig\<close>. A compiled pattern is the function from a line to the groups the
  parser reads from its match (\<open>None\<close>: no match); a pattern of which only the success
  is read is a predicate. For \<open>block_re\<close> the third group is optional, as the parser
  asks \<open>match.lastindex\<close> for it; for the list patterns the text group is optional
  likewise.
\<close>

record OrgReaderConfig =
  verbatim_blocks :: "string set"
  skip_header_keys :: "string set"
  quotes :: str_dict
  block_re :: "string \<Rightarrow> (string \<times> string \<times> string option) option"
  header_kv_re :: "string \<Rightarrow> string option"
  include_keyword_re :: "string \<Rightarrow> bool"
  section_heading_re :: "string \<Rightarrow> (string \<times> string \<times> string) option"
  unordered_list_re :: "string \<Rightarrow> string option option"
  ordered_list_re :: "string \<Rightarrow> (string \<times> string option) option"
  drawer_begin_re :: "string \<Rightarrow> string option"
  drawer_end_re :: "string \<Rightarrow> bool"
  comment_begin_re :: "string \<Rightarrow> bool"
  comment_end_re :: "string \<Rightarrow> bool"
  latex_macro_re :: "string \<Rightarrow> bool"

section \<open>org_parser.py: the line handlers\<close>

definition calculate_heading_level :: "string \<Rightarrow> nat" where
  "calculate_heading_level asterisks = length asterisks"

definition extract_heading_tags :: "string \<Rightarrow> string list option" where
  "extract_heading_tags trailing =
     (if CHR '':'' \<notin> set trailing then None
      else (let stripped = strip trailing
            in if \<not> (startswith stripped '':'' \<and> endswith stripped '':'') then None
               else (let tags = filter (\<lambda>t. t \<noteq> []) (split_all stripped '':'')
                     in if tags = [] then None else Some tags)))"

function parse_html_attr_tokens :: "string list \<Rightarrow> str_dict \<Rightarrow> str_dict" where
  \<comment> \<open>the \<open>while i < len(tokens)\<close> loop of \<open>parse_html_attr_args\<close>, on the tokens from
      \<open>i\<close> on\<close>
  "parse_html_attr_tokens [] attrs = attrs"
| "parse_html_attr_tokens (t # ts) attrs =
     (if startswith t '':''
      then (let vals = takeWhile (\<lambda>x. \<not> startswith x '':'') ts
            in parse_html_attr_tokens (dropWhile (\<lambda>x. \<not> startswith x '':'') ts)
                 (dict_set (drop 1 t) (if vals \<noteq> [] then join '' '' vals else ''true'') attrs))
      else parse_html_attr_tokens ts attrs)"
  by pat_completeness auto
termination
  by (relation "measure (\<lambda>p. length (fst p))")
     (auto simp: less_Suc_eq_le length_dropWhile_le)

definition parse_html_attr_args :: "string \<Rightarrow> str_dict" where
  "parse_html_attr_args arg_string = parse_html_attr_tokens (split_ws (strip arg_string)) []"

fun parse_src_option_tokens :: "string list \<Rightarrow> str_dict \<Rightarrow> str_dict" where
  \<comment> \<open>the \<open>while idx < len(tokens)\<close> loop of \<open>parse_src_block_options\<close>, on the tokens
      from \<open>idx\<close> on\<close>
  "parse_src_option_tokens [] options = options"
| "parse_src_option_tokens [t] options =
     (if startswith t '':'' then dict_set (drop 1 t) ''true'' options else options)"
| "parse_src_option_tokens (t # v # vs) options =
     (if \<not> startswith t '':'' then parse_src_option_tokens (v # vs) options
      else if startswith v '':''
        then parse_src_option_tokens (v # vs) (dict_set (drop 1 t) ''true'' options)
      else parse_src_option_tokens vs (dict_set (drop 1 t) v options))"

definition parse_src_block_options :: "string \<Rightarrow> str_dict" where
  "parse_src_block_options arg_string =
     (case split_ws (strip arg_string) of
        [] \<Rightarrow> []
      | t # ts \<Rightarrow>
          if \<not> startswith t '':''
          then parse_src_option_tokens ts (dict_set ''language'' t [])
          else parse_src_option_tokens (t # ts) [])"

definition handle_preamble_if_applicable ::
  "('z) OrgReaderConfig_scheme \<Rightarrow> string \<Rightarrow> OrgState \<Rightarrow> OrgState \<times> OrgEvent option" where
  "handle_preamble_if_applicable cfg line state =
     (if \<not> is_in_preamble state then (state, None)
      else if strip line = [] then (state, None)
      else (case header_kv_re cfg line of
              Some g1 \<Rightarrow>
                (let key = lower (strip g1); v = value_after_colon line
                 in (state\<lparr>preamble_headers := dict_set key v (preamble_headers state)\<rparr>,
                     Some (OrgEvent ''preamble_kv'' [(''key'', PStr key), (''value'', PStr v)])))
            | None \<Rightarrow>
                (state\<lparr>is_in_preamble := False\<rparr>,
                 Some (OrgEvent ''preamble_end''
                         [(''reason'', PStr ''first_non_header_content'')]))))"

definition handle_section_heading_if_present ::
  "('z) OrgReaderConfig_scheme \<Rightarrow> string \<Rightarrow> OrgState \<Rightarrow> OrgState \<times> OrgEvent option" where
  "handle_section_heading_if_present cfg line state =
     (case section_heading_re cfg line of
        None \<Rightarrow> (state, None)
      | Some (g1, g2, g3) \<Rightarrow>
          (let heading_level = calculate_heading_level g1;
               heading_tags = extract_heading_tags g3;
               anchor = pending_anchor state
           in (state\<lparr>is_in_preamble := False,
                     current_heading_level := Some heading_level,
                     current_heading_tags := heading_tags,
                     pending_anchor := None\<rparr>,
               Some (OrgEvent ''heading''
                       [(''level'', PInt (int heading_level)),
                        (''tags'', case heading_tags of None \<Rightarrow> PNone | Some ts \<Rightarrow> str_list ts),
                        (''anchor'', opt_str anchor)]))))"

definition latex_macro_event :: "string \<Rightarrow> bool \<Rightarrow> bool \<Rightarrow> OrgEvent" where
  "latex_macro_event raw added ignored =
     OrgEvent ''latex_macro''
       [(''raw'', PStr raw), (''added'', PBool added), (''ignored'', PBool ignored)]"

definition handle_latex_macro_keyword_if_present ::
  "('z) OrgReaderConfig_scheme \<Rightarrow> string \<Rightarrow> OrgState \<Rightarrow> OrgState \<times> OrgEvent option" where
  "handle_latex_macro_keyword_if_present cfg line state =
     (case header_kv_re cfg line of
        None \<Rightarrow> (state, None)
      | Some g1 \<Rightarrow>
          if lower (strip g1) \<noteq> ''latex'' then (state, None)
          else (let v = value_after_colon line
                in if v = [] then (state, Some (latex_macro_event [] False True))
                   else if \<not> latex_macro_re cfg v
                     then (state, Some (latex_macro_event v False True))
                   else if v \<notin> latex_macro_set state
                     then (state\<lparr>latex_macro_set := insert v (latex_macro_set state),
                                 latex_macro_lines := latex_macro_lines state @ [v]\<rparr>,
                           Some (latex_macro_event v True False))
                   else (state, Some (latex_macro_event v False False))))"

definition handle_block_marker_if_present ::
  "('z) OrgReaderConfig_scheme \<Rightarrow> string \<Rightarrow> OrgState \<Rightarrow>
   py_exception + OrgState \<times> OrgEvent option" where
  \<comment> \<open>\<open>block_verbatim_stack.pop()\<close> raises on an empty list\<close>
  "handle_block_marker_if_present cfg line state =
     (case block_re cfg line of
        None \<Rightarrow> Inr (state, None)
      | Some (g1, g2, g3) \<Rightarrow>
          (let side = lower g1;
               block_name = lower g2;
               remainder = (case g3 of Some r \<Rightarrow> strip r | None \<Rightarrow> []);
               is_verbatim = (block_name \<in> verbatim_blocks cfg)
           in if side = ''begin'' then
                (let state = state\<lparr>block_stack := block_stack state @ [block_name],
                                    block_verbatim_stack := block_verbatim_stack state @ [is_verbatim]\<rparr>;
                     state = state\<lparr>is_inside_verbatim_block := list_ex id (block_verbatim_stack state),
                                    is_inside_block := True,
                                    current_block_name := Some (last (block_stack state)),
                                    current_block_is_verbatim := last (block_verbatim_stack state),
                                    last_block_event := ''begin''\<rparr>;
                     anchor = pending_anchor state;
                     state = state\<lparr>pending_anchor := None\<rparr>
                 in if block_name = ''src'' then
                      (let opts = parse_src_block_options remainder;
                           state = state\<lparr>src_options_stack :=
                                            src_options_stack state @ [dict_or_none opts],
                                          src_block_options := dict_or_none opts\<rparr>
                       in Inr (state,
                           Some (OrgEvent ''src_begin''
                                   [(''name'', PStr ''src''),
                                    (''src'', opt_dict (dict_or_none opts)),
                                    (''verbatim'', PBool True),
                                    (''heading_level'',
                                       case current_heading_level state of
                                         None \<Rightarrow> PNone | Some l \<Rightarrow> PInt (int l)),
                                    (''heading_tags'',
                                       case current_heading_tags state of
                                         None \<Rightarrow> PNone | Some ts \<Rightarrow> str_list ts),
                                    (''anchor'', opt_str anchor)])))
                    else
                      Inr (state\<lparr>src_options_stack := src_options_stack state @ [None],
                             src_block_options := None\<rparr>,
                       Some (OrgEvent ''block_begin''
                               [(''name'', PStr block_name), (''verbatim'', PBool is_verbatim),
                                (''anchor'', opt_str anchor)])))
              else if block_stack state = [] then
                Inr (state,
                 Some (OrgEvent ''block_end''
                         [(''name'', PStr block_name), (''orphan_ignored'', PBool True)]))
              else if last (block_stack state) \<noteq> block_name then
                Inr (state,
                 Some (OrgEvent ''block_end''
                         [(''name'', PStr block_name), (''mismatch_ignored'', PBool True),
                          (''expected'', PStr (last (block_stack state)))]))
              else if block_verbatim_stack state = [] then
                Inl (IndexError ''pop from empty list'')
              else
                (let popped_name = last (block_stack state);
                     popped_verbatim = last (block_verbatim_stack state);
                     popped_src_opts = (if src_options_stack state \<noteq> []
                                        then last (src_options_stack state) else None);
                     state = state\<lparr>block_stack := butlast (block_stack state),
                                    block_verbatim_stack := butlast (block_verbatim_stack state),
                                    src_options_stack := butlast (src_options_stack state)\<rparr>;
                     state = state\<lparr>is_inside_verbatim_block := list_ex id (block_verbatim_stack state),
                                    is_inside_block := (block_stack state \<noteq> []),
                                    current_block_name :=
                                      (if block_stack state \<noteq> []
                                       then Some (last (block_stack state)) else None),
                                    current_block_is_verbatim :=
                                      (if block_verbatim_stack state \<noteq> []
                                       then last (block_verbatim_stack state) else False),
                                    last_block_event := ''end'',
                                    src_block_options :=
                                      (if src_options_stack state \<noteq> []
                                       then last (src_options_stack state) else None)\<rparr>
                 in if popped_name = ''src'' then
                      Inr (state,
                       Some (OrgEvent ''src_end''
                               [(''name'', PStr ''src''), (''src'', opt_dict popped_src_opts),
                                (''heading_level'',
                                   case current_heading_level state of
                                     None \<Rightarrow> PNone | Some l \<Rightarrow> PInt (int l)),
                                (''heading_tags'',
                                   case current_heading_tags state of
                                     None \<Rightarrow> PNone | Some ts \<Rightarrow> str_list ts)]))
                    else
                      Inr (state,
                       Some (OrgEvent ''block_end''
                               [(''name'', PStr block_name),
                                (''verbatim'', PBool popped_verbatim)])))))"

definition handle_drawer_if_present ::
  "('z) OrgReaderConfig_scheme \<Rightarrow> string \<Rightarrow> OrgState \<Rightarrow> OrgState \<times> OrgEvent option" where
  "handle_drawer_if_present cfg line state =
     (if is_inside_drawer state then
        (if drawer_end_re cfg line then
           (state\<lparr>is_inside_drawer := False, current_drawer_name := None,
                  current_drawer_lines := None\<rparr>,
            Some (OrgEvent ''drawer''
                    [(''name'', PStr (case current_drawer_name state of
                                       None \<Rightarrow> [] | Some n \<Rightarrow> n)),
                     (''lines'', str_list (case current_drawer_lines state of
                                            None \<Rightarrow> [] | Some ls \<Rightarrow> ls))]))
         else
           (state\<lparr>current_drawer_lines :=
                    Some ((case current_drawer_lines state of None \<Rightarrow> [] | Some ls \<Rightarrow> ls)
                          @ [line])\<rparr>,
            None))
      else (case drawer_begin_re cfg line of
              None \<Rightarrow> (state, None)
            | Some name \<Rightarrow>
                (state\<lparr>is_inside_drawer := True, current_drawer_name := Some name,
                       current_drawer_lines := Some []\<rparr>,
                 None)))"

definition strip_chars :: "char \<Rightarrow> string \<Rightarrow> string" where
  \<comment> \<open>\<open>s.strip(c)\<close> for one character \<open>c\<close>\<close>
  "strip_chars c s = dropWhile (\<lambda>x. x = c) (rev (dropWhile (\<lambda>x. x = c) (rev s)))"

definition handle_table_if_present :: "string \<Rightarrow> OrgEvent option" where
  \<comment> \<open>reads neither the configuration nor the state\<close>
  "handle_table_if_present line =
     (let stripped = lstrip line
      in if \<not> startswith stripped ''|'' then None
         else (let core = strip stripped;
                   inner = strip (strip_chars (CHR ''|'') core)
               in if inner \<noteq> [] \<and> list_all (\<lambda>ch. ch \<in> set ''-+ '') inner
                  then Some (OrgEvent ''table_hline'' [(''raw'', PStr line)])
                  else (let row_inner = core;
                            row_inner = (if startswith row_inner ''|''
                                         then drop 1 row_inner else row_inner);
                            row_inner = (if endswith row_inner ''|''
                                         then butlast row_inner else row_inner);
                            cells = map strip (split_all row_inner ''|'')
                        in Some (OrgEvent ''table_row''
                                   [(''cells'', str_list cells), (''raw'', PStr line)]))))"

definition handle_tblfm_keyword_if_present ::
  "('z) OrgReaderConfig_scheme \<Rightarrow> string \<Rightarrow> OrgEvent option" where
  "handle_tblfm_keyword_if_present cfg line =
     (case header_kv_re cfg line of
        None \<Rightarrow> None
      | Some g1 \<Rightarrow>
          if lower (strip g1) \<noteq> ''tblfm'' then None
          else (let v = value_after_colon line;
                    parts = map strip (filter (\<lambda>p. strip p \<noteq> []) (split_all v ''::''))
                in Some (OrgEvent ''tblfm''
                           [(''raw'', PStr v), (''formulas'', str_list parts)])))"

definition handle_comment_if_present ::
  "('z) OrgReaderConfig_scheme \<Rightarrow> string \<Rightarrow> OrgState \<Rightarrow> OrgState \<times> OrgEvent option" where
  "handle_comment_if_present cfg line state =
     (if is_inside_comment state then
        (if comment_end_re cfg line then
           (state\<lparr>is_inside_comment := False, current_comment_anchor := None,
                  current_comment_lines := None\<rparr>,
            Some (OrgEvent ''comment_block''
                    [(''anchor'', opt_str (current_comment_anchor state)),
                     (''lines'', str_list (case current_comment_lines state of
                                            None \<Rightarrow> [] | Some ls \<Rightarrow> ls))]))
         else
           (state\<lparr>current_comment_lines :=
                    Some ((case current_comment_lines state of None \<Rightarrow> [] | Some ls \<Rightarrow> ls)
                          @ [line])\<rparr>,
            None))
      else if comment_begin_re cfg line then
        (state\<lparr>is_inside_comment := True, current_comment_lines := Some [],
               current_comment_anchor := pending_anchor state, pending_anchor := None\<rparr>,
         None)
      else (let stripped = lstrip line
            in if startswith stripped ''#'' \<and> \<not> startswith (lower stripped) ''#+'' then
                 (let comment_text = drop 1 stripped;
                      comment_text = (if startswith comment_text '' ''
                                      then drop 1 comment_text else comment_text)
                  in (state\<lparr>pending_anchor := None\<rparr>,
                      Some (OrgEvent ''comment''
                              [(''anchor'', opt_str (pending_anchor state)),
                               (''text'', PStr comment_text)])))
               else (state, None)))"

definition leading_spaces :: "string \<Rightarrow> nat" where
  \<comment> \<open>\<open>len(line) - len(line.lstrip(" "))\<close>\<close>
  "leading_spaces line = length (takeWhile (\<lambda>c. c = CHR '' '') line)"

definition handle_unordered_list_if_present ::
  "('z) OrgReaderConfig_scheme \<Rightarrow> string \<Rightarrow> OrgEvent option" where
  "handle_unordered_list_if_present cfg line =
     (case unordered_list_re cfg line of
        None \<Rightarrow> None
      | Some g1 \<Rightarrow>
          Some (OrgEvent ''list_item''
                  [(''indent'', PInt (int (leading_spaces line))),
                   (''text'', PStr (case g1 of None \<Rightarrow> [] | Some t \<Rightarrow> t))]))"

definition handle_ordered_list_if_present ::
  "('z) OrgReaderConfig_scheme \<Rightarrow> string \<Rightarrow> OrgEvent option" where
  "handle_ordered_list_if_present cfg line =
     (case ordered_list_re cfg line of
        None \<Rightarrow> None
      | Some (number_str, g2) \<Rightarrow>
          Some (OrgEvent ''ordered_list_item''
                  [(''indent'', PInt (int (leading_spaces line))),
                   (''raw_index'', PStr number_str),
                   (''index'', case int_of_digits number_str of
                                 None \<Rightarrow> PNone | Some i \<Rightarrow> PInt i),
                   (''text'', PStr (case g2 of None \<Rightarrow> [] | Some t \<Rightarrow> t))]))"

definition handle_name_keyword_if_present ::
  "('z) OrgReaderConfig_scheme \<Rightarrow> string \<Rightarrow> OrgState \<Rightarrow> OrgState \<times> OrgEvent option" where
  "handle_name_keyword_if_present cfg line state =
     (case header_kv_re cfg line of
        None \<Rightarrow> (state, None)
      | Some g1 \<Rightarrow>
          if lower (strip g1) \<noteq> ''name'' then (state, None)
          else (let v = value_after_colon line
                in (state\<lparr>pending_anchor := (if v \<noteq> [] then Some v else None)\<rparr>,
                    Some (OrgEvent ''name'' [(''name'', PStr v)]))))"

definition handle_caption_keyword_if_present ::
  "('z) OrgReaderConfig_scheme \<Rightarrow> string \<Rightarrow> OrgState \<Rightarrow> OrgState \<times> OrgEvent option" where
  "handle_caption_keyword_if_present cfg line state =
     (case header_kv_re cfg line of
        None \<Rightarrow> (state, None)
      | Some g1 \<Rightarrow>
          if lower (strip g1) \<noteq> ''caption'' then (state, None)
          else (let v = value_after_colon line;
                    tokens = (if v \<noteq> [] then tokenize_inline_org_markup v else [])
                in (state\<lparr>pending_caption_tokens :=
                             (if tokens \<noteq> [] then Some tokens else None)\<rparr>,
                    Some (OrgEvent ''caption''
                            [(''caption'', PStr v), (''tokens'', tokens_val tokens)]))))"

definition handle_attr_html_keyword_if_present ::
  "('z) OrgReaderConfig_scheme \<Rightarrow> string \<Rightarrow> OrgState \<Rightarrow> OrgState \<times> OrgEvent option" where
  "handle_attr_html_keyword_if_present cfg line state =
     (case header_kv_re cfg line of
        None \<Rightarrow> (state, None)
      | Some g1 \<Rightarrow>
          if lower (strip g1) \<noteq> ''attr_html'' then (state, None)
          else (let v = value_after_colon line;
                    attrs = (if v \<noteq> [] then parse_html_attr_args v else [])
                in (state\<lparr>pending_html_attr := dict_or_none attrs\<rparr>,
                    Some (OrgEvent ''attr_html''
                            [(''raw'', PStr v), (''attrs'', dict_val attrs)]))))"

definition make_line_token_event :: "string \<Rightarrow> OrgEvent" where
  "make_line_token_event line =
     OrgEvent ''line_tokens'' [(''tokens'', tokens_val (tokenize_inline_org_markup line))]"

section \<open>org_parser.py: \<open>parse_org_line\<close>\<close>

definition option_list :: "'a option \<Rightarrow> 'a list" where
  \<comment> \<open>the events appended for a handler's result\<close>
  "option_list x = (case x of None \<Rightarrow> [] | Some e \<Rightarrow> [e])"

definition parse_structure ::
  "('z) OrgReaderConfig_scheme \<Rightarrow> string \<Rightarrow> OrgState \<Rightarrow> OrgEvent list \<Rightarrow>
   py_exception + OrgState \<times> OrgEvent list" where
  \<comment> \<open>the end of \<open>parse_org_line\<close>: heading, block marker, list items, line tokens\<close>
  "parse_structure cfg line state events =
     (let h = handle_section_heading_if_present cfg line state;
          state = fst h;
          events = events @ option_list (snd h)
      in case handle_block_marker_if_present cfg line state of
           Inl e \<Rightarrow> Inl e
         | Inr b \<Rightarrow>
             (let state = fst b;
                  events = events @ option_list (snd b);
                  events =
                    (if snd h = None then
                       (case handle_unordered_list_if_present cfg line of
                          Some ul \<Rightarrow> events @ [ul]
                        | None \<Rightarrow> events @ option_list (handle_ordered_list_if_present cfg line))
                     else events)
              in Inr (state, events @ [make_line_token_event line])))"

definition parse_keywords ::
  "('z) OrgReaderConfig_scheme \<Rightarrow> string \<Rightarrow> OrgState \<Rightarrow> OrgEvent list \<Rightarrow>
   py_exception + OrgState \<times> OrgEvent list" where
  \<comment> \<open>the middle of \<open>parse_org_line\<close>: tables and the keyword lines\<close>
  "parse_keywords cfg line state events =
     (case handle_table_if_present line of
        Some table_event \<Rightarrow> Inr (state, events @ [table_event])
      | None \<Rightarrow>
     (case handle_tblfm_keyword_if_present cfg line of
        Some tblfm_event \<Rightarrow> Inr (state, events @ [tblfm_event, make_line_token_event line])
      | None \<Rightarrow>
     (case handle_name_keyword_if_present cfg line state of
        (state, Some name_event) \<Rightarrow>
          Inr (state, events @ [name_event, make_line_token_event line])
      | (state, None) \<Rightarrow>
     (case handle_caption_keyword_if_present cfg line state of
        (state, Some caption_event) \<Rightarrow>
          Inr (state, events @ [caption_event, make_line_token_event line])
      | (state, None) \<Rightarrow>
     (case handle_attr_html_keyword_if_present cfg line state of
        (state, Some attr_html_event) \<Rightarrow>
          Inr (state, events @ [attr_html_event, make_line_token_event line])
      | (state, None) \<Rightarrow>
     (case handle_latex_macro_keyword_if_present cfg line state of
        (state, Some latex_event) \<Rightarrow>
          Inr (state, events @ [latex_event, make_line_token_event line])
      | (state, None) \<Rightarrow> parse_structure cfg line state events))))))"

definition parse_org_line ::
  "('z) OrgReaderConfig_scheme \<Rightarrow> string \<Rightarrow> OrgState \<Rightarrow>
   py_exception + OrgState \<times> OrgEvent list" where
  "parse_org_line cfg line state =
     (let p = handle_preamble_if_applicable cfg line state;
          state = fst p;
          events = option_list (snd p)
      in if map event_type events = [''preamble_kv'']
         then Inr (state, events @ [make_line_token_event line])
         else (case handle_comment_if_present cfg line state of
                 (state, Some comment_event) \<Rightarrow> Inr (state, events @ [comment_event])
               | (state, None) \<Rightarrow>
                   if is_inside_comment state then Inr (state, events)
                   else (case handle_drawer_if_present cfg line state of
                           (state, Some drawer_event) \<Rightarrow> Inr (state, events @ [drawer_event])
                         | (state, None) \<Rightarrow>
                             if is_inside_drawer state then Inr (state, events)
                             else parse_keywords cfg line state events)))"

fun parse_org_lines ::
  "('z) OrgReaderConfig_scheme \<Rightarrow> OrgState \<Rightarrow> string list \<Rightarrow>
   py_exception + OrgState \<times> OrgEvent list list" where
  \<comment> \<open>\<open>parse_org_line\<close> called once per line, in order: the final state and the events
      of each line\<close>
  "parse_org_lines cfg state [] = Inr (state, [])"
| "parse_org_lines cfg state (line # lines) =
     (case parse_org_line cfg line state of
        Inl e \<Rightarrow> Inl e
      | Inr r \<Rightarrow>
          (case parse_org_lines cfg (fst r) lines of
             Inl e \<Rightarrow> Inl e
           | Inr rs \<Rightarrow> Inr (fst rs, snd r # snd rs)))"

section \<open>Block nesting: the invariant and well-nested input\<close>

definition block_invariant :: "OrgState \<Rightarrow> bool" where
  \<comment> \<open>the verbatim flag is \<open>any(block_verbatim_stack)\<close>, and the three stacks have one
      depth\<close>
  "block_invariant state =
     (is_inside_verbatim_block state = list_ex id (block_verbatim_stack state)
      \<and> length (block_verbatim_stack state) = length (block_stack state)
      \<and> length (src_options_stack state) = length (block_stack state))"

definition is_comment_line :: "string \<Rightarrow> bool" where
  \<comment> \<open>a single-line comment: \<open>#\<close> but not \<open>#+\<close> after the leading whitespace\<close>
  "is_comment_line line =
     (startswith (lstrip line) ''#'' \<and> \<not> startswith (lower (lstrip line)) ''#+'')"

definition passes_to_structure :: "('z) OrgReaderConfig_scheme \<Rightarrow> string \<Rightarrow> bool" where
  \<comment> \<open>no handler before the heading and block handlers takes the line: it is no
      keyword line, comment, drawer opener or table line\<close>
  "passes_to_structure cfg line =
     (header_kv_re cfg line = None \<and> \<not> comment_begin_re cfg line \<and> \<not> is_comment_line line
      \<and> drawer_begin_re cfg line = None \<and> \<not> startswith (lstrip line) ''|'')"

definition begin_marker :: "('z) OrgReaderConfig_scheme \<Rightarrow> string \<Rightarrow> string \<Rightarrow> bool" where
  "begin_marker cfg line name =
     (passes_to_structure cfg line \<and>
      (case block_re cfg line of
         None \<Rightarrow> False
       | Some (g1, g2, g3) \<Rightarrow> lower g1 = ''begin'' \<and> lower g2 = name))"

definition end_marker :: "('z) OrgReaderConfig_scheme \<Rightarrow> string \<Rightarrow> string \<Rightarrow> bool" where
  "end_marker cfg line name =
     (passes_to_structure cfg line \<and>
      (case block_re cfg line of
         None \<Rightarrow> False
       | Some (g1, g2, g3) \<Rightarrow> lower g1 \<noteq> ''begin'' \<and> lower g2 = name))"

definition other_line :: "('z) OrgReaderConfig_scheme \<Rightarrow> string \<Rightarrow> bool" where
  \<comment> \<open>a line that is no block marker and opens neither a comment block nor a drawer\<close>
  "other_line cfg line =
     (block_re cfg line = None \<and> \<not> comment_begin_re cfg line \<and> drawer_begin_re cfg line = None)"

text \<open>
  A drawer and a comment block capture lines: the line that opens one, the lines it
  takes while open, and the line that closes it, each stated as the checks the
  classifier makes on the way to the handler.
\<close>

definition drawer_opener :: "('z) OrgReaderConfig_scheme \<Rightarrow> string \<Rightarrow> bool" where
  \<comment> \<open>reaches the drawer handler and matches \<open>drawer_begin_re\<close>\<close>
  "drawer_opener cfg line =
     (header_kv_re cfg line = None \<and> \<not> comment_begin_re cfg line \<and> \<not> is_comment_line line
      \<and> drawer_begin_re cfg line \<noteq> None)"

definition drawer_content :: "('z) OrgReaderConfig_scheme \<Rightarrow> string \<Rightarrow> bool" where
  \<comment> \<open>inside a drawer: neither closes it nor opens a comment block (the comment handler
      runs before the drawer handler)\<close>
  "drawer_content cfg line = (\<not> drawer_end_re cfg line \<and> \<not> comment_begin_re cfg line)"

definition drawer_closer :: "('z) OrgReaderConfig_scheme \<Rightarrow> string \<Rightarrow> bool" where
  \<comment> \<open>reaches the drawer handler and matches \<open>drawer_end_re\<close>\<close>
  "drawer_closer cfg line =
     (header_kv_re cfg line = None \<and> \<not> comment_begin_re cfg line \<and> \<not> is_comment_line line
      \<and> drawer_end_re cfg line)"

definition comment_opener :: "('z) OrgReaderConfig_scheme \<Rightarrow> string \<Rightarrow> bool" where
  "comment_opener cfg line = (header_kv_re cfg line = None \<and> comment_begin_re cfg line)"

definition comment_content :: "('z) OrgReaderConfig_scheme \<Rightarrow> string \<Rightarrow> bool" where
  "comment_content cfg line = (\<not> comment_end_re cfg line)"

definition comment_closer :: "('z) OrgReaderConfig_scheme \<Rightarrow> string \<Rightarrow> bool" where
  "comment_closer cfg line = (header_kv_re cfg line = None \<and> comment_end_re cfg line)"

text \<open>
  Well-formed input: every begin marker is closed by an end marker of the same name,
  properly nested, and both reach the block handler; every drawer and every comment
  block that is opened is closed again (what they capture is arbitrary, block markers
  included); any other line may stand anywhere.
\<close>

inductive well_nested :: "('z) OrgReaderConfig_scheme \<Rightarrow> string list \<Rightarrow> bool" for cfg where
  empty: "well_nested cfg []"
| other: "other_line cfg line \<Longrightarrow> well_nested cfg [line]"
| block: "begin_marker cfg b name \<Longrightarrow> well_nested cfg inner \<Longrightarrow> end_marker cfg e name \<Longrightarrow>
          well_nested cfg (b # inner @ [e])"
| drawer: "drawer_opener cfg b \<Longrightarrow> list_all (drawer_content cfg) inner \<Longrightarrow>
           drawer_closer cfg e \<Longrightarrow> well_nested cfg (b # inner @ [e])"
| comment: "comment_opener cfg b \<Longrightarrow> list_all (comment_content cfg) inner \<Longrightarrow>
            comment_closer cfg e \<Longrightarrow> well_nested cfg (b # inner @ [e])"
| append: "well_nested cfg xs \<Longrightarrow> well_nested cfg ys \<Longrightarrow> well_nested cfg (xs @ ys)"

definition preamble_end_event :: OrgEvent where
  "preamble_end_event = OrgEvent ''preamble_end'' [(''reason'', PStr ''first_non_header_content'')]"

text \<open>The fields the block handler owns, and the two capture flags.\<close>

definition stack_fields ::
  "OrgState \<Rightarrow> string list \<times> bool list \<times> str_dict option list \<times> bool" where
  "stack_fields st =
     (block_stack st, block_verbatim_stack st, src_options_stack st, is_inside_verbatim_block st)"

definition capture_fields :: "OrgState \<Rightarrow> bool \<times> bool" where
  "capture_fields st = (is_inside_comment st, is_inside_drawer st)"

text \<open>Lines that, processed outside a comment block and a drawer, leave the three stacks as they were.\<close>

definition stack_neutral :: "('z) OrgReaderConfig_scheme \<Rightarrow> string list \<Rightarrow> bool" where
  "stack_neutral cfg ls =
     (\<forall>st. capture_fields st = (False, False) \<longrightarrow>
        (\<exists>st' evs. parse_org_lines cfg st ls = Inr (st', evs)
           \<and> block_stack st' = block_stack st
           \<and> block_verbatim_stack st' = block_verbatim_stack st
           \<and> src_options_stack st' = src_options_stack st
           \<and> capture_fields st' = (False, False)))"

definition patterns_reject :: "('z) OrgReaderConfig_scheme \<Rightarrow> string \<Rightarrow> bool" where
  \<comment> \<open>none of the configured patterns that open or classify a line matches it\<close>
  "patterns_reject cfg line =
     (header_kv_re cfg line = None \<and> \<not> comment_begin_re cfg line
      \<and> drawer_begin_re cfg line = None \<and> section_heading_re cfg line = None
      \<and> block_re cfg line = None \<and> unordered_list_re cfg line = None
      \<and> ordered_list_re cfg line = None)"

section \<open>config_loader.py: the default configuration\<close>

text \<open>
  The patterns of \<open>DEFAULT_CONFIG\<close>, each written out as the matcher it compiles to
  (all but the last with \<open>re.IGNORECASE\<close>). The comment of a matcher gives its pattern.
\<close>

definition dot_star_eol :: "string \<Rightarrow> string option" where
  \<comment> \<open>\<open>(.*)$\<close>: the rest of the string when it holds no newline but, at most, a last one\<close>
  "dot_star_eol s =
     (let t = takeWhile (\<lambda>c. c \<noteq> CHR 0x0A) s; r = dropWhile (\<lambda>c. c \<noteq> CHR 0x0A) s
      in if r = [] \<or> r = [CHR 0x0A] then Some t else None)"

definition ws_then_rest :: "nat \<Rightarrow> string \<Rightarrow> string option" where
  \<comment> \<open>\<open>\s*(.*)$\<close> (at least \<open>0\<close>) and \<open>\s+(.*)$\<close> (at least \<open>1\<close>): the longest run of
      whitespace after which \<open>(.*)$\<close> matches\<close>
  "ws_then_rest at_least s =
     (case List.map_filter (\<lambda>k. dot_star_eol (drop k s))
             (rev [at_least ..< Suc (length (takeWhile isspace s))]) of
        [] \<Rightarrow> None
      | t # ts \<Rightarrow> Some t)"

definition not_word_next :: "string \<Rightarrow> bool" where
  \<comment> \<open>\<open>\b\<close> after a word character: the end of the string or a non-word character\<close>
  "not_word_next s = (case s of [] \<Rightarrow> True | c # cs \<Rightarrow> \<not> isword c)"

definition ascii_alnum :: "char \<Rightarrow> bool" where
  "ascii_alnum c =
     (let n = of_char c :: nat
      in (48 \<le> n \<and> n \<le> 57) \<or> (65 \<le> n \<and> n \<le> 90) \<or> (97 \<le> n \<and> n \<le> 122))"

definition default_block_re :: "string \<Rightarrow> (string \<times> string \<times> string option) option" where
  \<comment> \<open>\<open>^\s*#\+(begin|end)_(\w+)\b\s*(.*)$\<close>\<close>
  "default_block_re line =
     (let s = lstrip line
      in if \<not> startswith s ''#+'' then None
         else (let s = drop 2 s;
                   n = (if startswith (lower s) ''begin'' then 5
                        else if startswith (lower s) ''end'' then 3 else 0);
                   g1 = take n s;
                   s = drop n s;
                   g2 = takeWhile isword (drop 1 s)
               in if n = 0 \<or> \<not> startswith s ''_'' \<or> g2 = [] then None
                  else (case ws_then_rest 0 (dropWhile isword (drop 1 s)) of
                          None \<Rightarrow> None
                        | Some g3 \<Rightarrow> Some (g1, g2, Some g3))))"

definition default_header_kv_re :: "string \<Rightarrow> string option" where
  \<comment> \<open>\<open>^\s*#\+([A-Za-z0-9_-]+)\s*:\<close>\<close>
  "default_header_kv_re line =
     (let s = lstrip line;
          keychar = (\<lambda>c. ascii_alnum c \<or> c = CHR ''_'' \<or> c = CHR ''-'');
          g1 = takeWhile keychar (drop 2 s)
      in if startswith s ''#+'' \<and> g1 \<noteq> []
            \<and> startswith (lstrip (dropWhile keychar (drop 2 s))) '':''
         then Some g1 else None)"

definition default_include_keyword_re :: "string \<Rightarrow> bool" where
  \<comment> \<open>\<open>^\s*#\+include\b\<close>\<close>
  "default_include_keyword_re line =
     (let s = lstrip line
      in startswith (lower s) ''#+include'' \<and> not_word_next (drop 9 s))"

definition default_section_heading_re :: "string \<Rightarrow> (string \<times> string \<times> string) option" where
  \<comment> \<open>\<open>^([*]+)\s+([^:]*)(.*)$\<close>\<close>
  "default_section_heading_re line =
     (let g1 = takeWhile (\<lambda>c. c = CHR ''*'') line;
          r = dropWhile (\<lambda>c. c = CHR ''*'') line;
          a = dropWhile isspace r;
          g2 = takeWhile (\<lambda>c. c \<noteq> CHR '':'') a
      in if g1 = [] \<or> takeWhile isspace r = [] then None
         else (case dot_star_eol (dropWhile (\<lambda>c. c \<noteq> CHR '':'') a) of
                 None \<Rightarrow> None
               | Some g3 \<Rightarrow> Some (g1, g2, g3)))"

definition default_unordered_list_re :: "string \<Rightarrow> string option option" where
  \<comment> \<open>\<open>^\s*[-+]\s+(.*)$\<close>\<close>
  "default_unordered_list_re line =
     (case lstrip line of
        [] \<Rightarrow> None
      | c # r \<Rightarrow>
          if c = CHR ''-'' \<or> c = CHR ''+''
          then (case ws_then_rest 1 r of None \<Rightarrow> None | Some t \<Rightarrow> Some (Some t))
          else None)"

definition default_ordered_list_re :: "string \<Rightarrow> (string \<times> string option) option" where
  \<comment> \<open>\<open>^\s*(\d+)[.)]\s+(.*)$\<close>\<close>
  "default_ordered_list_re line =
     (let s = lstrip line; g1 = takeWhile isdigit s
      in case dropWhile isdigit s of
           [] \<Rightarrow> None
         | c # r \<Rightarrow>
             if g1 \<noteq> [] \<and> (c = CHR ''.'' \<or> c = CHR '')'')
             then (case ws_then_rest 1 r of None \<Rightarrow> None | Some t \<Rightarrow> Some (g1, Some t))
             else None)"

definition default_drawer_begin_re :: "string \<Rightarrow> string option" where
  \<comment> \<open>\<open>^\s*:([A-Za-z0-9_@#%]+):\s*$\<close>\<close>
  "default_drawer_begin_re line =
     (let s = lstrip line;
          namechar = (\<lambda>c. ascii_alnum c \<or> c \<in> set ''_@#%'');
          g1 = takeWhile namechar (drop 1 s);
          r = dropWhile namechar (drop 1 s)
      in if startswith s '':'' \<and> g1 \<noteq> [] \<and> startswith r '':'' \<and> list_all isspace (drop 1 r)
         then Some g1 else None)"

definition default_drawer_end_re :: "string \<Rightarrow> bool" where
  \<comment> \<open>\<open>^\s*:END:\s*$\<close>\<close>
  "default_drawer_end_re line =
     (let s = lstrip line in startswith (lower s) '':end:'' \<and> list_all isspace (drop 5 s))"

definition default_comment_begin_re :: "string \<Rightarrow> bool" where
  \<comment> \<open>\<open>^\s*#\+begin_comment\b\<close>\<close>
  "default_comment_begin_re line =
     (let s = lstrip line
      in startswith (lower s) ''#+begin_comment'' \<and> not_word_next (drop 15 s))"

definition default_comment_end_re :: "string \<Rightarrow> bool" where
  \<comment> \<open>\<open>^\s*#\+end_comment\b\<close>\<close>
  "default_comment_end_re line =
     (let s = lstrip line
      in startswith (lower s) ''#+end_comment'' \<and> not_word_next (drop 13 s))"

definition default_latex_macro_re :: "string \<Rightarrow> bool" where
  \<comment> \<open>\<open>.search\<close> of
      \<open>\\(?:def|newcommand|renewcommand|providecommand|newenvironment|renewenvironment)\b\<close>\<close>
  "default_latex_macro_re v =
     list_ex (\<lambda>k. let s = drop k v
                    in startswith s [CHR 0x5C] \<and>
                       list_ex (\<lambda>w. startswith (drop 1 s) w
                                     \<and> not_word_next (drop (1 + length w) s))
                         [''def'', ''newcommand'', ''renewcommand'', ''providecommand'',
                          ''newenvironment'', ''renewenvironment''])
       [0 ..< length v]"

definition DEFAULT_CONFIG :: OrgReaderConfig where
  "DEFAULT_CONFIG =
     \<lparr> verbatim_blocks = {''example'', ''src'', ''verbatim'', ''export'', ''quote''},
       skip_header_keys = {''title'', ''author'', ''date'', ''options''},
       quotes = [([CHR 0x22], [CHR 0x22]), ([CHR 0x27], [CHR 0x27])],
       block_re = default_block_re,
       header_kv_re = default_header_kv_re,
       include_keyword_re = default_include_keyword_re,
       section_heading_re = default_section_heading_re,
       unordered_list_re = default_unordered_list_re,
       ordered_list_re = default_ordered_list_re,
       drawer_begin_re = default_drawer_begin_re,
       drawer_end_re = default_drawer_end_re,
       comment_begin_re = default_comment_begin_re,
       comment_end_re = default_comment_end_re,
       latex_macro_re = default_latex_macro_re \<rparr>"

section \<open>Properties of the inline tokenizer\<close>




lemma flush_plaintext_append:
  "flush_plaintext buffer tokens = tokens @ flush_plaintext buffer []"
  by (simp add: flush_plaintext_def)














section \<open>Properties of inline rendering\<close>

lemma escaped_text_escape_char:
  assumes s: "escaped_text s"
  shows "escaped_text (escape_char c @ s)"
proof (cases "c \<in> set (''&<>'' @ [CHR 0x22, CHR 0x27])")
  case True
  then have "escape_char c \<in> set [''&amp;'', ''&lt;'', ''&gt;'', ''&quot;'', ''&#x27;'']"
    by (auto simp: escape_char_def)
  then show ?thesis using s by (rule escaped_text.entity)
next
  case False
  then have "escape_char c = [c]" by (auto simp: escape_char_def)
  then show ?thesis using escaped_text.plain [OF False s] by simp
qed

lemma escaped_text_escape_html: "escaped_text (escape_html t)"
  by (induction t) (auto simp: escape_html_def intro: escaped_text.nil escaped_text_escape_char)

lemma escaped_text_no_specials:
  "escaped_text s \<Longrightarrow>
   CHR ''<'' \<notin> set s \<and> CHR ''>'' \<notin> set s \<and> CHR 0x22 \<notin> set s \<and> CHR 0x27 \<notin> set s"
  by (induction rule: escaped_text.induct) auto

lemma inline_html_append: "inline_html a \<Longrightarrow> inline_html b \<Longrightarrow> inline_html (a @ b)"
proof (induction rule: inline_html.induct)
  case empty
  then show ?case by simp
next
  case (plaintext s r)
  then show ?case using inline_html.plaintext [of s "r @ b"] by simp
next
  case (strong s r)
  then show ?case using inline_html.strong [of s "r @ b"] by simp
next
  case (em s r)
  then show ?case using inline_html.em [of s "r @ b"] by simp
next
  case (code s r)
  then show ?case using inline_html.code [of s "r @ b"] by simp
next
  case (math src alt r)
  then show ?case using inline_html.math [of src alt "r @ b"] by simp
next
  case (image src alt title r)
  then show ?case using inline_html.image [of src alt title "r @ b"] by simp
next
  case (anchor href label r)
  then show ?case using inline_html.anchor [of href label "r @ b"] by simp
qed

lemma render_inline_token_html:
  assumes "render_inline_token h u macros tok cache = Inr r"
  shows "inline_html (fst r)"
proof -
  note e = escaped_text_escape_html
  have p: "inline_html (escape_html x)" for x
    using inline_html.plaintext [OF e inline_html.empty, of x] by simp
  have s: "inline_html (''<strong>'' @ escape_html x @ ''</strong>'')" for x
    using inline_html.strong [OF e inline_html.empty, of x] by simp
  have m: "inline_html (''<em>'' @ escape_html x @ ''</em>'')" for x
    using inline_html.em [OF e inline_html.empty, of x] by simp
  have c: "inline_html (''<code>'' @ escape_html x @ ''</code>'')" for x
    using inline_html.code [OF e inline_html.empty, of x] by simp
  have i: "inline_html (''<img src=\"'' @ escape_html x @ ''\" alt=\"'' @ escape_html y
                        @ ''\" class=\"math-inline\" />'')" for x y
    using inline_html.math [OF e e inline_html.empty, of x y] by simp
  have g: "inline_html (''<img src=\"'' @ escape_html x @ ''\" alt=\"'' @ escape_html y
                        @ ''\" title=\"'' @ escape_html z @ ''\" class=\"inline-image\" />'')"
    for x y z
    using inline_html.image [OF e e e inline_html.empty, of x y z] by simp
  have a: "inline_html (''<a href=\"'' @ escape_html x @ ''\">'' @ escape_html y @ ''</a>'')"
    for x y
    using inline_html.anchor [OF e e inline_html.empty, of x y] by simp
  from assms show ?thesis
    unfolding render_inline_token_def Let_def
    by (auto split: if_splits sum.splits simp del: append.simps append_Cons
             intro: p s m c i g a)
qed

lemma render_inline_tokens_loop_html:
  "render_inline_tokens_loop h u macros tokens out cache = Inr r \<Longrightarrow>
   inline_html (concat out) \<Longrightarrow> inline_html (fst r)"
proof (induction tokens arbitrary: out cache)
  case Nil
  then show ?case by auto
next
  case (Cons tok tokens)
  then obtain p where p: "render_inline_token h u macros tok cache = Inr p"
    and rest: "render_inline_tokens_loop h u macros tokens (out @ [fst p]) (snd p) = Inr r"
    by (auto split: sum.splits)
  have "inline_html (concat (out @ [fst p]))"
    using inline_html_append [OF Cons.prems(2) render_inline_token_html [OF p]] by simp
  with Cons.IH [OF rest] show ?case .
qed

text \<open>
  C10: whatever the tokens are, the HTML that \<open>render_inline_tokens\<close> returns is
  the fixed markup of the token kinds with escaped text in every place filled from a
  token (text, \<open>src\<close>, \<open>alt\<close>, \<open>title\<close>, \<open>href\<close>, label). By
  \<open>escaped_text_no_specials\<close> such text holds no \<open><\<close>, \<open>>\<close> or quote character, and
  by the definition of \<open>escaped_text\<close> every \<open>&\<close> in it starts one of the five
  entities. So no special character of a token's text reaches the output unescaped.
\<close>

theorem render_inline_tokens_escapes:
  assumes "render_inline_tokens h u tokens macros cache = Inr (html, cache')"
  shows "inline_html html"
  using render_inline_tokens_loop_html [of h u macros tokens "[]" cache "(html, cache')"] assms
  by (simp add: render_inline_tokens_def inline_html.empty)

theorem render_inline_tokens_escapes_witness:
  "render_inline_tokens id (\<lambda>url. Inr [])
     [(''plaintext'', ''a<b&c''), (''bold_text'', ''x>y''), (''link'', ''u'' @ NULL_SEP @ ''d\"q'')]
     [] Map.empty
   = Inr (''a&lt;b&amp;c<strong>x&gt;y</strong><a href=\"u\">d&quot;q</a>'', Map.empty)
   \<and> inline_html ''a&lt;b&amp;c<strong>x&gt;y</strong><a href=\"u\">d&quot;q</a>''"
proof -
  have r: "render_inline_tokens id (\<lambda>url. Inr [])
     [(''plaintext'', ''a<b&c''), (''bold_text'', ''x>y''), (''link'', ''u'' @ NULL_SEP @ ''d\"q'')]
     [] Map.empty
   = Inr (''a&lt;b&amp;c<strong>x&gt;y</strong><a href=\"u\">d&quot;q</a>'', Map.empty)"
    by (simp add: render_inline_tokens_def render_inline_token_def escape_html_def
          escape_char_def NULL_SEP_def split_once_def find_from_def startswith_def strip_def
          lstrip_def rstrip_def isspace_def is_image_target_def lower_def lower_char_def
          endswith_def)
  from render_inline_tokens_escapes [OF r] r show ?thesis by simp
qed

section \<open>Properties of the table formula evaluator\<close>

lemma subnodes_self: "set (subnodes n) = insert n (\<Union>c \<in> set (child_nodes n). set (subnodes c))"
  by (cases n) auto

lemma ast_walk_set: "set (ast_walk todo) = (\<Union>n \<in> set todo. set (subnodes n))"
proof (induction todo rule: ast_walk.induct)
  case 1
  show ?case by simp
next
  case (2 n todo)
  show ?case using 2 subnodes_self [of n] by auto
qed

lemma check_nodes_rejected_head:
  "node_rejected sub \<Longrightarrow> \<exists>e. check_nodes (sub # rest) = Some e"
  by (auto simp: node_rejected_def call_allowed_def split: list.splits)

lemma check_nodes_accepted_head:
  "\<not> node_rejected sub \<Longrightarrow> check_nodes (sub # rest) = check_nodes rest"
  by (auto simp: node_rejected_def call_allowed_def split: list.splits)

lemma check_nodes_rejects:
  "\<exists>sub \<in> set xs. node_rejected sub \<Longrightarrow> \<exists>e. check_nodes xs = Some e"
proof (induction xs)
  case Nil
  then show ?case by simp
next
  case (Cons x xs)
  show ?case
  proof (cases "node_rejected x")
    case True
    then show ?thesis by (rule check_nodes_rejected_head)
  next
    case False
    with Cons.prems have "\<exists>sub \<in> set xs. node_rejected sub" by auto
    with Cons.IH show ?thesis by (simp only: check_nodes_accepted_head [OF False])
  qed
qed

lemma check_nodes_accepts:
  "check_nodes xs = None \<Longrightarrow> sub \<in> set xs \<Longrightarrow> \<not> node_rejected sub"
  using check_nodes_rejects [of xs] by auto

lemma apply_assignment_fail_soft:
  "safe_eval rt (translate_formula dest_col rhs) names = Inl e \<Longrightarrow>
   apply_assignment rt max_cols (dest_col, rhs) (cs, names) = Inr (cs, names)"
  by (simp add: apply_assignment_def)

text \<open>
  C1: when the tree that \<open>ast.parse\<close> returns for an expression holds a node of a
  class outside the allowed ones, or a call whose callee is not a plain name on the
  allow-list, the walk over the tree raises: \<open>_safe_eval\<close> returns that exception,
  and returns it whatever the evaluator is (the evaluator is never consulted). In the
  loop over the assignments such a formula leaves the row's cells and the names as
  they were.
\<close>

theorem safe_eval_rejects:
  assumes parse: "ast_parse rt expr = Inr node"
    and bad: "\<exists>sub \<in> set (subnodes node). node_rejected sub"
  shows "\<exists>e. check_nodes (ast_walk [node]) = Some e
           \<and> safe_eval rt expr names = Inl e
           \<and> (\<forall>ev. safe_eval (rt\<lparr>py_eval := ev\<rparr>) expr names = Inl e)
           \<and> (translate_formula dest_col rhs = expr \<longrightarrow>
                apply_assignment rt max_cols (dest_col, rhs) (cs, names) = Inr (cs, names))"
proof -
  from bad have "\<exists>sub \<in> set (ast_walk [node]). node_rejected sub"
    unfolding ast_walk_set by simp
  then obtain e where e: "check_nodes (ast_walk [node]) = Some e"
    using check_nodes_rejects by blast
  have s: "safe_eval rt expr names = Inl e"
    using parse e by (simp add: safe_eval_def)
  have "safe_eval (rt\<lparr>py_eval := ev\<rparr>) expr names = Inl e" for ev
    using parse e by (simp add: safe_eval_def)
  moreover have "apply_assignment rt max_cols (dest_col, rhs) (cs, names) = Inr (cs, names)"
    if "translate_formula dest_col rhs = expr"
    using that s by (simp add: apply_assignment_def)
  ultimately show ?thesis using e s by blast
qed

theorem safe_eval_rejects_witness:
  "safe_eval
     (cpython_fragment\<lparr>ast_parse := \<lambda>s. Inr (AST ''Expression'' []
        [AST ''Attribute'' ''real'' [name_node ''c1'', AST ''Load'' [] []]])\<rparr>)
     ''c1.real'' [''c1'' \<mapsto> Finite 1]
   = Inl (ValueError ''Disallowed expression node: Attribute'')
   \<and> apply_assignment
       (cpython_fragment\<lparr>ast_parse := \<lambda>s. Inr (AST ''Expression'' []
          [AST ''Attribute'' ''real'' [name_node ''c1'', AST ''Load'' [] []]])\<rparr>)
       2 (2, ''$1.real'') ([''1'', ''2''], [''c1'' \<mapsto> Finite 1])
     = Inr ([''1'', ''2''], [''c1'' \<mapsto> Finite 1])"
proof -
  define node where "node = AST ''Expression'' []
        [AST ''Attribute'' ''real'' [name_node ''c1'', AST ''Load'' [] []]]"
  define rt where "rt = cpython_fragment\<lparr>ast_parse := \<lambda>s. Inr node\<rparr>"
  have p: "ast_parse rt ''c1.real'' = Inr node" by (simp add: rt_def)
  have b: "\<exists>sub \<in> set (subnodes node). node_rejected sub"
    by (simp add: node_def name_node_def node_rejected_def allowed_nodes_def)
  have w: "check_nodes (ast_walk [node]) = Some (ValueError ''Disallowed expression node: Attribute'')"
    by (simp add: node_def name_node_def allowed_nodes_def)
  have t: "translate_formula 2 ''$1.real'' = ''c1.real''"
    by code_simp
  from safe_eval_rejects [OF p b, of "[''c1'' \<mapsto> Finite 1]" 2 "''$1.real''" 2 "[''1'', ''2'']"] w t
  show ?thesis by (simp add: rt_def node_def)
qed

text \<open>
  C2 (the claim that no exception reaches the caller): the destination column of the
  formula \<open>$3=$1+$2\<close> lies beyond the two columns of the row. The expression is
  evaluated, the write is skipped by the range check, and the read
  \<open>cells[dest_col - 1]\<close> that follows raises \<open>IndexError\<close> outside the \<open>try\<close>.
\<close>

theorem apply_formulas_index_error:
  "apply_column_formulas_to_table cpython_fragment [Row [''1'', ''2'']] [''$3=$1+$2'']
   = Inl (IndexError ''list index out of range'')"
  by code_simp

text \<open>
  C3 (as stated): for the rows \<open>[a, b]\<close>, a rule and \<open>[1, 2]\<close> with the formula
  \<open>$3=$1+$2\<close>, the rows are padded to three columns and the body row becomes
  \<open>[1, 2, 3]\<close>. The code pads to the widest row, here two columns, which changes
  nothing, and the call does not return the rows at all.
\<close>

theorem pad_to_three_counterexample:
  "max_cols_of [Row [''a'', ''b''], Hline, Row [''1'', ''2'']] = 2
   \<and> pad_rows 2 [Row [''a'', ''b''], Hline, Row [''1'', ''2'']]
       = [Row [''a'', ''b''], Hline, Row [''1'', ''2'']]
   \<and> apply_column_formulas_to_table cpython_fragment
        [Row [''a'', ''b''], Hline, Row [''1'', ''2'']] [''$3=$1+$2'']
       = Inl (IndexError ''list index out of range'')"
  by code_simp

text \<open>
  C3 (amended): rows are padded to the widest row of the table before the formulas are
  evaluated. For the rows \<open>[a, b]\<close>, a rule and \<open>[1, 2]\<close> that is two columns, and
  padding changes nothing. When a row has a third column, as in \<open>[a, b, c]\<close>, a rule
  and \<open>[1, 2]\<close>, all rows are padded to three columns and the formula \<open>$3=$1+$2\<close>
  produces the body row \<open>[1, 2, 3]\<close>; the header row is left as it is.
\<close>

theorem pad_to_widest_row:
  "max_cols_of [Row [''a'', ''b''], Hline, Row [''1'', ''2'']] = 2
   \<and> pad_rows 2 [Row [''a'', ''b''], Hline, Row [''1'', ''2'']]
       = [Row [''a'', ''b''], Hline, Row [''1'', ''2'']]
   \<and> max_cols_of [Row [''a'', ''b'', ''c''], Hline, Row [''1'', ''2'']] = 3
   \<and> pad_rows 3 [Row [''a'', ''b'', ''c''], Hline, Row [''1'', ''2'']]
       = [Row [''a'', ''b'', ''c''], Hline, Row [''1'', ''2'', '''']]
   \<and> apply_column_formulas_to_table cpython_fragment
        [Row [''a'', ''b'', ''c''], Hline, Row [''1'', ''2'']] [''$3=$1+$2'']
       = Inr [Row [''a'', ''b'', ''c''], Hline, Row [''1'', ''2'', ''3'']]"
  by code_simp

section \<open>Properties of the math cache key\<close>

lemma math_image_url_fst:
  "fst (math_image_url h s m c) = ''/math/'' @ math_digest h s m @ ''.svg''"
  by (simp add: math_image_url_def Let_def)

text \<open>
  C9 (as stated): the cache key is the hash of the macro preamble, a newline and the math
  source, and differs whenever the preamble or the source changes by one character.
  The code hashes another text: the preamble is stripped first and the separator is
  \<open>\n%%MATH%%\n\<close>. So the text hashed for preamble \<open>m\<close> and source \<open>x\<close> is not
  \<open>m\nx\<close>, and a preamble with one more trailing blank gives the same hashed text, hence
  the same key under every hash function.
\<close>

theorem math_cache_key_counterexample:
  "payload_for_hash ''m'' ''x'' \<noteq> ''m'' @ [CHR 0x0A] @ ''x''
   \<and> payload_for_hash ''m '' ''x'' = payload_for_hash ''m'' ''x''
   \<and> ''m '' \<noteq> ''m''"
  by (simp add: payload_for_hash_def strip_def lstrip_def rstrip_def isspace_def)

text \<open>
  C9 (amended): for a fixed macro preamble \<open>M\<close> and math source \<open>S\<close> the URL and key are
  the same on repeated calls, whatever the cache holds (in particular on a second call
  after the first one wrote the cache); the key is the hash of the stripped preamble
  followed by \<open>\n%%MATH%%\n\<close> and the source; with the preamble fixed, two sources that
  differ give different hashed texts, and with the source fixed, two preambles that
  differ after stripping give different hashed texts.
\<close>

theorem math_cache_key_stable:
  "fst (math_image_url h S M (snd (math_image_url h S M c))) = fst (math_image_url h S M c)
   \<and> fst (math_image_url h S M c) = fst (math_image_url h S M c')
   \<and> math_digest h S M = h (strip M @ [CHR 0x0A] @ ''%%MATH%%'' @ [CHR 0x0A] @ S)
   \<and> (payload_for_hash M S = payload_for_hash M S' \<longrightarrow> S = S')
   \<and> (payload_for_hash M S = payload_for_hash M' S \<longrightarrow> strip M = strip M')"
  by (simp add: math_image_url_fst math_digest_def payload_for_hash_def)

theorem math_cache_key_stable_witness:
  "fst (math_image_url id ''x^2'' '' m '' (snd (math_image_url id ''x^2'' '' m '' Map.empty)))
     = fst (math_image_url id ''x^2'' '' m '' Map.empty)
   \<and> math_digest id ''x^2'' '' m '' = ''m'' @ [CHR 0x0A] @ ''%%MATH%%'' @ [CHR 0x0A] @ ''x^2''
   \<and> payload_for_hash '' m '' ''x^2'' \<noteq> payload_for_hash '' m '' ''x^3''
   \<and> payload_for_hash '' m '' ''x^2'' \<noteq> payload_for_hash ''n'' ''x^2''"
  using math_cache_key_stable [of id "''x^2''" "'' m ''" Map.empty Map.empty "''x^3''" "''n''"]
  by (simp add: payload_for_hash_def strip_def lstrip_def rstrip_def isspace_def)

section \<open>Properties of the line classifier\<close>

lemma preamble_no_kv:
  "header_kv_re cfg line = None \<Longrightarrow>
   handle_preamble_if_applicable cfg line st =
     (if is_in_preamble st \<and> strip line \<noteq> []
      then (st\<lparr>is_in_preamble := False\<rparr>, Some preamble_end_event) else (st, None))"
  by (simp add: handle_preamble_if_applicable_def preamble_end_event_def)

lemma comment_skip:
  "\<not> is_inside_comment st \<Longrightarrow> \<not> comment_begin_re cfg line \<Longrightarrow> \<not> is_comment_line line \<Longrightarrow>
   handle_comment_if_present cfg line st = (st, None)"
  by (simp add: handle_comment_if_present_def is_comment_line_def Let_def)

lemma drawer_skip:
  "\<not> is_inside_drawer st \<Longrightarrow> drawer_begin_re cfg line = None \<Longrightarrow>
   handle_drawer_if_present cfg line st = (st, None)"
  by (simp add: handle_drawer_if_present_def)

lemma keywords_skip:
  "header_kv_re cfg line = None \<Longrightarrow> \<not> startswith (lstrip line) ''|'' \<Longrightarrow>
   parse_keywords cfg line st evs = parse_structure cfg line st evs"
  by (simp add: parse_keywords_def handle_table_if_present_def
        handle_tblfm_keyword_if_present_def handle_name_keyword_if_present_def
        handle_caption_keyword_if_present_def handle_attr_html_keyword_if_present_def
        handle_latex_macro_keyword_if_present_def)

lemma parse_org_line_structure:
  assumes "\<not> is_inside_comment st" and "\<not> is_inside_drawer st"
    and "passes_to_structure cfg line"
  shows "parse_org_line cfg line st =
           (if is_in_preamble st \<and> strip line \<noteq> []
            then parse_structure cfg line (st\<lparr>is_in_preamble := False\<rparr>) [preamble_end_event]
            else parse_structure cfg line st [])"
  using assms
  by (simp add: parse_org_line_def passes_to_structure_def preamble_no_kv comment_skip
        drawer_skip keywords_skip option_list_def preamble_end_event_def)

lemma block_invariant_fields:
  "stack_fields a = stack_fields b \<Longrightarrow> block_invariant a = block_invariant b"
  by (simp add: stack_fields_def block_invariant_def)

lemma preamble_frame:
  "stack_fields (fst (handle_preamble_if_applicable cfg line st)) = stack_fields st
   \<and> capture_fields (fst (handle_preamble_if_applicable cfg line st)) = capture_fields st"
  by (simp add: handle_preamble_if_applicable_def stack_fields_def capture_fields_def Let_def
           split: option.split)

lemma comment_frame:
  "stack_fields (fst (handle_comment_if_present cfg line st)) = stack_fields st
   \<and> is_inside_drawer (fst (handle_comment_if_present cfg line st)) = is_inside_drawer st"
  by (simp add: handle_comment_if_present_def stack_fields_def Let_def)

lemma drawer_frame:
  "stack_fields (fst (handle_drawer_if_present cfg line st)) = stack_fields st
   \<and> is_inside_comment (fst (handle_drawer_if_present cfg line st)) = is_inside_comment st"
  by (simp add: handle_drawer_if_present_def stack_fields_def split: option.split)

lemma name_frame:
  "stack_fields (fst (handle_name_keyword_if_present cfg line st)) = stack_fields st
   \<and> capture_fields (fst (handle_name_keyword_if_present cfg line st)) = capture_fields st"
  by (simp add: handle_name_keyword_if_present_def stack_fields_def capture_fields_def Let_def
           split: option.split)

lemma caption_frame:
  "stack_fields (fst (handle_caption_keyword_if_present cfg line st)) = stack_fields st
   \<and> capture_fields (fst (handle_caption_keyword_if_present cfg line st)) = capture_fields st"
  by (simp add: handle_caption_keyword_if_present_def stack_fields_def capture_fields_def Let_def
           split: option.split)

lemma attr_html_frame:
  "stack_fields (fst (handle_attr_html_keyword_if_present cfg line st)) = stack_fields st
   \<and> capture_fields (fst (handle_attr_html_keyword_if_present cfg line st)) = capture_fields st"
  by (simp add: handle_attr_html_keyword_if_present_def stack_fields_def capture_fields_def
           Let_def split: option.split)

lemma latex_frame:
  "stack_fields (fst (handle_latex_macro_keyword_if_present cfg line st)) = stack_fields st
   \<and> capture_fields (fst (handle_latex_macro_keyword_if_present cfg line st)) = capture_fields st"
  by (simp add: handle_latex_macro_keyword_if_present_def stack_fields_def capture_fields_def
           Let_def split: option.split)

lemma heading_frame:
  "stack_fields (fst (handle_section_heading_if_present cfg line st)) = stack_fields st
   \<and> capture_fields (fst (handle_section_heading_if_present cfg line st)) = capture_fields st"
  by (simp add: handle_section_heading_if_present_def stack_fields_def capture_fields_def
           Let_def split: option.split prod.split)

lemma block_none:
  "block_re cfg line = None \<Longrightarrow> handle_block_marker_if_present cfg line st = Inr (st, None)"
  by (simp add: handle_block_marker_if_present_def)

lemma block_begin:
  assumes "block_re cfg line = Some (g1, g2, g3)" and "lower g1 = ''begin''"
  shows "\<exists>st' e opt. handle_block_marker_if_present cfg line st = Inr (st', e)
           \<and> block_stack st' = block_stack st @ [lower g2]
           \<and> block_verbatim_stack st'
               = block_verbatim_stack st @ [lower g2 \<in> verbatim_blocks cfg]
           \<and> src_options_stack st' = src_options_stack st @ [opt]
           \<and> is_inside_verbatim_block st' = list_ex id (block_verbatim_stack st')
           \<and> capture_fields st' = capture_fields st"
  using assms
  by (simp add: handle_block_marker_if_present_def Let_def capture_fields_def)

lemma block_end_match:
  assumes "block_re cfg line = Some (g1, g2, g3)" and "lower g1 \<noteq> ''begin''"
    and "block_stack st = bs @ [lower g2]" and "block_verbatim_stack st = vs @ [v]"
    and "src_options_stack st = os @ [opt]"
  shows "\<exists>st' e. handle_block_marker_if_present cfg line st = Inr (st', e)
           \<and> block_stack st' = bs \<and> block_verbatim_stack st' = vs
           \<and> src_options_stack st' = os
           \<and> is_inside_verbatim_block st' = list_ex id vs
           \<and> capture_fields st' = capture_fields st"
  using assms
  by (simp add: handle_block_marker_if_present_def Let_def capture_fields_def)

lemma block_keeps_invariant:
  assumes "block_invariant st"
  shows "\<exists>st' e. handle_block_marker_if_present cfg line st = Inr (st', e)
           \<and> block_invariant st' \<and> capture_fields st' = capture_fields st"
proof (cases "block_re cfg line")
  case None
  then show ?thesis using assms by (simp add: block_none)
next
  case (Some g)
  obtain g1 g2 g3 where g: "g = (g1, g2, g3)" by (cases g) auto
  show ?thesis
  proof (cases "lower g1 = ''begin''")
    case True
    from block_begin [OF Some [unfolded g] True, of st] assms show ?thesis
      by (auto simp: block_invariant_def)
  next
    case False
    consider (orphan) "block_stack st = []"
      | (mismatch) "block_stack st \<noteq> []" "last (block_stack st) \<noteq> lower g2"
      | (match) "block_stack st \<noteq> []" "last (block_stack st) = lower g2"
      by blast
    then show ?thesis
    proof cases
      case orphan
      then show ?thesis using Some g False assms
        by (simp add: handle_block_marker_if_present_def Let_def)
    next
      case mismatch
      then show ?thesis using Some g False assms
        by (simp add: handle_block_marker_if_present_def Let_def)
    next
      case match
      then obtain bs where bs: "block_stack st = bs @ [lower g2]"
        by (metis append_butlast_last_id)
      with assms obtain vs v where vs: "block_verbatim_stack st = vs @ [v]"
        by (cases "block_verbatim_stack st" rule: rev_cases) (auto simp: block_invariant_def)
      from bs assms obtain os opt where os: "src_options_stack st = os @ [opt]"
        by (cases "src_options_stack st" rule: rev_cases) (auto simp: block_invariant_def)
      from block_end_match [OF Some [unfolded g] False bs vs os] assms bs vs os
      show ?thesis by (auto simp: block_invariant_def)
    qed
  qed
qed

lemma parse_structure_state:
  "handle_block_marker_if_present cfg line (fst (handle_section_heading_if_present cfg line st))
     = Inr (st', e) \<Longrightarrow>
   \<exists>evs. parse_structure cfg line st ev0 = Inr (st', evs)"
  by (simp add: parse_structure_def Let_def)

lemma parse_structure_keeps_invariant:
  assumes "block_invariant st"
  shows "\<exists>st' evs. parse_structure cfg line st ev0 = Inr (st', evs)
           \<and> block_invariant st' \<and> capture_fields st' = capture_fields st"
proof -
  let ?h = "fst (handle_section_heading_if_present cfg line st)"
  have "block_invariant ?h"
    using assms block_invariant_fields [of ?h st] heading_frame [of cfg line st] by simp
  from block_keeps_invariant [OF this, of cfg line] obtain st' e where
    b: "handle_block_marker_if_present cfg line ?h = Inr (st', e)"
    and i: "block_invariant st'" and c: "capture_fields st' = capture_fields ?h"
    by blast
  from parse_structure_state [OF b, of ev0] i c heading_frame [of cfg line st]
  show ?thesis by auto
qed

lemma parse_keywords_keeps_invariant:
  assumes inv: "block_invariant st"
  shows "\<exists>st' evs. parse_keywords cfg line st ev0 = Inr (st', evs)
           \<and> block_invariant st' \<and> capture_fields st' = capture_fields st"
proof -
  obtain s1 r1 where h1: "handle_name_keyword_if_present cfg line st = (s1, r1)"
    by (cases "handle_name_keyword_if_present cfg line st") auto
  obtain s2 r2 where h2: "handle_caption_keyword_if_present cfg line s1 = (s2, r2)"
    by (cases "handle_caption_keyword_if_present cfg line s1") auto
  obtain s3 r3 where h3: "handle_attr_html_keyword_if_present cfg line s2 = (s3, r3)"
    by (cases "handle_attr_html_keyword_if_present cfg line s2") auto
  obtain s4 r4 where h4: "handle_latex_macro_keyword_if_present cfg line s3 = (s4, r4)"
    by (cases "handle_latex_macro_keyword_if_present cfg line s3") auto
  have f1: "stack_fields s1 = stack_fields st" "capture_fields s1 = capture_fields st"
    using name_frame [of cfg line st] h1 by simp_all
  have f2: "stack_fields s2 = stack_fields st" "capture_fields s2 = capture_fields st"
    using caption_frame [of cfg line s1] h2 f1 by simp_all
  have f3: "stack_fields s3 = stack_fields st" "capture_fields s3 = capture_fields st"
    using attr_html_frame [of cfg line s2] h3 f2 by simp_all
  have f4: "stack_fields s4 = stack_fields st" "capture_fields s4 = capture_fields st"
    using latex_frame [of cfg line s3] h4 f3 by simp_all
  have i1: "block_invariant s1" using inv block_invariant_fields [OF f1(1)] by simp
  have i2: "block_invariant s2" using inv block_invariant_fields [OF f2(1)] by simp
  have i3: "block_invariant s3" using inv block_invariant_fields [OF f3(1)] by simp
  have i4: "block_invariant s4" using inv block_invariant_fields [OF f4(1)] by simp
  from parse_structure_keeps_invariant [OF i4, of cfg line ev0] f4 obtain st' evs where
    ps: "parse_structure cfg line s4 ev0 = Inr (st', evs)" "block_invariant st'"
        "capture_fields st' = capture_fields st"
    by auto
  show ?thesis
    unfolding parse_keywords_def
    using h1 h2 h3 h4 inv i1 i2 i3 i4 f1 f2 f3 f4 ps
    by (auto split: option.split)
qed

lemma parse_org_line_keeps_invariant:
  assumes inv: "block_invariant st"
  shows "\<exists>st' evs. parse_org_line cfg line st = Inr (st', evs) \<and> block_invariant st'"
proof -
  obtain s0 r0 where h0: "handle_preamble_if_applicable cfg line st = (s0, r0)"
    by (cases "handle_preamble_if_applicable cfg line st") auto
  obtain s1 r1 where h1: "handle_comment_if_present cfg line s0 = (s1, r1)"
    by (cases "handle_comment_if_present cfg line s0") auto
  obtain s2 r2 where h2: "handle_drawer_if_present cfg line s1 = (s2, r2)"
    by (cases "handle_drawer_if_present cfg line s1") auto
  have f0: "stack_fields s0 = stack_fields st"
    using preamble_frame [of cfg line st] h0 by simp
  have f1: "stack_fields s1 = stack_fields st"
    using comment_frame [of cfg line s0] h1 f0 by simp
  have f2: "stack_fields s2 = stack_fields st"
    using drawer_frame [of cfg line s1] h2 f1 by simp
  have i0: "block_invariant s0" using inv block_invariant_fields [OF f0] by simp
  have i1: "block_invariant s1" using inv block_invariant_fields [OF f1] by simp
  have i2: "block_invariant s2" using inv block_invariant_fields [OF f2] by simp
  from parse_keywords_keeps_invariant [OF i2, of cfg line "option_list r0"] obtain st' evs where
    pk: "parse_keywords cfg line s2 (option_list r0) = Inr (st', evs)" "block_invariant st'"
    by auto
  show ?thesis
    unfolding parse_org_line_def Let_def
    using h0 h1 h2 i0 i1 i2 pk
    by (auto split: option.split)
qed

lemma parse_org_lines_keeps_invariant:
  "block_invariant st \<Longrightarrow>
   \<exists>st' evs. parse_org_lines cfg st lines = Inr (st', evs) \<and> block_invariant st'"
proof (induction lines arbitrary: st)
  case Nil
  then show ?case by simp
next
  case (Cons l ls)
  from parse_org_line_keeps_invariant [OF Cons.prems, of cfg l] obtain s1 e1 where
    a: "parse_org_line cfg l st = Inr (s1, e1)" "block_invariant s1" by auto
  from Cons.IH [OF a(2)] obtain s2 e2 where
    b: "parse_org_lines cfg s1 ls = Inr (s2, e2)" "block_invariant s2" by auto
  from a b show ?case by simp
qed

lemma fresh_state_invariant: "block_invariant fresh_state"
  by (simp add: block_invariant_def fresh_state_def)

lemma parse_structure_fst:
  "map_sum id fst (parse_structure cfg line st ev0)
     = map_sum id fst (handle_block_marker_if_present cfg line
                         (fst (handle_section_heading_if_present cfg line st)))"
  by (simp add: parse_structure_def Let_def split: sum.split)

lemma begin_step:
  assumes m: "begin_marker cfg b name" and c: "capture_fields st = (False, False)"
  shows "\<exists>st' evs v opt. parse_org_line cfg b st = Inr (st', evs)
           \<and> block_stack st' = block_stack st @ [name]
           \<and> block_verbatim_stack st' = block_verbatim_stack st @ [v]
           \<and> src_options_stack st' = src_options_stack st @ [opt]
           \<and> capture_fields st' = (False, False)"
proof -
  from m obtain g1 g2 g3 where g: "block_re cfg b = Some (g1, g2, g3)"
    "lower g1 = ''begin''" "lower g2 = name" and p: "passes_to_structure cfg b"
    by (auto simp: begin_marker_def split: option.splits)
  define s0 where "s0 = (if is_in_preamble st \<and> strip b \<noteq> [] then st\<lparr>is_in_preamble := False\<rparr> else st)"
  define e0 where "e0 = (if is_in_preamble st \<and> strip b \<noteq> [] then [preamble_end_event] else [])"
  have pol: "parse_org_line cfg b st = parse_structure cfg b s0 e0"
    using parse_org_line_structure [OF _ _ p, of st] c
    by (simp add: capture_fields_def s0_def e0_def)
  let ?h = "fst (handle_section_heading_if_present cfg b s0)"
  have fh: "stack_fields ?h = stack_fields st" "capture_fields ?h = capture_fields st"
    using heading_frame [of cfg b s0]
    by (simp_all add: s0_def stack_fields_def capture_fields_def)
  from block_begin [OF g(1) g(2), of ?h] obtain st' e opt where
    r: "handle_block_marker_if_present cfg b ?h = Inr (st', e)"
       "block_stack st' = block_stack ?h @ [lower g2]"
       "block_verbatim_stack st' = block_verbatim_stack ?h @ [lower g2 \<in> verbatim_blocks cfg]"
       "src_options_stack st' = src_options_stack ?h @ [opt]"
       "capture_fields st' = capture_fields ?h"
    by blast
  from parse_structure_state [OF r(1), of e0] obtain evs where
    "parse_structure cfg b s0 e0 = Inr (st', evs)" by blast
  with pol r fh g(3) c show ?thesis by (auto simp: stack_fields_def)
qed

lemma end_step:
  assumes m: "end_marker cfg e name" and c: "capture_fields st = (False, False)"
    and bs: "block_stack st = bs @ [name]" and vs: "block_verbatim_stack st = vs @ [v]"
    and os: "src_options_stack st = os @ [opt]"
  shows "\<exists>st' evs. parse_org_line cfg e st = Inr (st', evs)
           \<and> block_stack st' = bs \<and> block_verbatim_stack st' = vs
           \<and> src_options_stack st' = os \<and> capture_fields st' = (False, False)"
proof -
  from m obtain g1 g2 g3 where g: "block_re cfg e = Some (g1, g2, g3)"
    "lower g1 \<noteq> ''begin''" "lower g2 = name" and p: "passes_to_structure cfg e"
    by (auto simp: end_marker_def split: option.splits)
  define s0 where "s0 = (if is_in_preamble st \<and> strip e \<noteq> [] then st\<lparr>is_in_preamble := False\<rparr> else st)"
  define e0 where "e0 = (if is_in_preamble st \<and> strip e \<noteq> [] then [preamble_end_event] else [])"
  have pol: "parse_org_line cfg e st = parse_structure cfg e s0 e0"
    using parse_org_line_structure [OF _ _ p, of st] c
    by (simp add: capture_fields_def s0_def e0_def)
  let ?h = "fst (handle_section_heading_if_present cfg e s0)"
  have fh: "stack_fields ?h = stack_fields st" "capture_fields ?h = capture_fields st"
    using heading_frame [of cfg e s0]
    by (simp_all add: s0_def stack_fields_def capture_fields_def)
  have hb: "block_stack ?h = bs @ [lower g2]" "block_verbatim_stack ?h = vs @ [v]"
    "src_options_stack ?h = os @ [opt]"
    using fh(1) bs vs os g(3) by (simp_all add: stack_fields_def)
  from block_end_match [OF g(1) g(2) hb] obtain st' ev where
    r: "handle_block_marker_if_present cfg e ?h = Inr (st', ev)"
       "block_stack st' = bs" "block_verbatim_stack st' = vs" "src_options_stack st' = os"
       "capture_fields st' = capture_fields ?h"
    by blast
  from parse_structure_state [OF r(1), of e0] obtain evs where
    "parse_structure cfg e s0 e0 = Inr (st', evs)" by blast
  with pol r fh c show ?thesis by auto
qed

lemma comment_other:
  "\<not> is_inside_comment st \<Longrightarrow> \<not> comment_begin_re cfg line \<Longrightarrow>
   \<not> is_inside_comment (fst (handle_comment_if_present cfg line st))"
  by (simp add: handle_comment_if_present_def Let_def)

lemma parse_keywords_other:
  assumes b: "block_re cfg line = None"
  shows "\<exists>st' evs. parse_keywords cfg line st ev0 = Inr (st', evs)
           \<and> stack_fields st' = stack_fields st \<and> capture_fields st' = capture_fields st"
proof -
  obtain s1 r1 where h1: "handle_name_keyword_if_present cfg line st = (s1, r1)"
    by (cases "handle_name_keyword_if_present cfg line st") auto
  obtain s2 r2 where h2: "handle_caption_keyword_if_present cfg line s1 = (s2, r2)"
    by (cases "handle_caption_keyword_if_present cfg line s1") auto
  obtain s3 r3 where h3: "handle_attr_html_keyword_if_present cfg line s2 = (s3, r3)"
    by (cases "handle_attr_html_keyword_if_present cfg line s2") auto
  obtain s4 r4 where h4: "handle_latex_macro_keyword_if_present cfg line s3 = (s4, r4)"
    by (cases "handle_latex_macro_keyword_if_present cfg line s3") auto
  have f1: "stack_fields s1 = stack_fields st" "capture_fields s1 = capture_fields st"
    using name_frame [of cfg line st] h1 by simp_all
  have f2: "stack_fields s2 = stack_fields st" "capture_fields s2 = capture_fields st"
    using caption_frame [of cfg line s1] h2 f1 by simp_all
  have f3: "stack_fields s3 = stack_fields st" "capture_fields s3 = capture_fields st"
    using attr_html_frame [of cfg line s2] h3 f2 by simp_all
  have f4: "stack_fields s4 = stack_fields st" "capture_fields s4 = capture_fields st"
    using latex_frame [of cfg line s3] h4 f3 by simp_all
  let ?h = "fst (handle_section_heading_if_present cfg line s4)"
  have "handle_block_marker_if_present cfg line ?h = Inr (?h, None)"
    using b by (rule block_none)
  from parse_structure_state [OF this, of ev0] obtain evs where
    ps: "parse_structure cfg line s4 ev0 = Inr (?h, evs)" by blast
  have fh: "stack_fields ?h = stack_fields st" "capture_fields ?h = capture_fields st"
    using heading_frame [of cfg line s4] f4 by simp_all
  show ?thesis
    unfolding parse_keywords_def
    using h1 h2 h3 h4 f1 f2 f3 f4 fh ps
    by (auto split: option.split)
qed

lemma other_step:
  assumes o: "other_line cfg line" and c: "capture_fields st = (False, False)"
  shows "\<exists>st' evs. parse_org_line cfg line st = Inr (st', evs)
           \<and> stack_fields st' = stack_fields st \<and> capture_fields st' = (False, False)"
proof -
  from o have b: "block_re cfg line = None" and cb: "\<not> comment_begin_re cfg line"
    and db: "drawer_begin_re cfg line = None"
    by (simp_all add: other_line_def)
  obtain s0 r0 where h0: "handle_preamble_if_applicable cfg line st = (s0, r0)"
    by (cases "handle_preamble_if_applicable cfg line st") auto
  obtain s1 r1 where h1: "handle_comment_if_present cfg line s0 = (s1, r1)"
    by (cases "handle_comment_if_present cfg line s0") auto
  have f0: "stack_fields s0 = stack_fields st" "capture_fields s0 = (False, False)"
    using preamble_frame [of cfg line st] h0 c by simp_all
  have f1: "stack_fields s1 = stack_fields st" "capture_fields s1 = (False, False)"
    using comment_frame [of cfg line s0] comment_other [of s0 cfg line] h1 f0 cb
    by (simp_all add: capture_fields_def)
  have h2: "handle_drawer_if_present cfg line s1 = (s1, None)"
    using drawer_skip [of s1 cfg line] f1 db by (simp add: capture_fields_def)
  from parse_keywords_other [OF b, of s1 "option_list r0"] f1 obtain st' evs where
    pk: "parse_keywords cfg line s1 (option_list r0) = Inr (st', evs)"
        "stack_fields st' = stack_fields st" "capture_fields st' = (False, False)"
    by auto
  show ?thesis
    unfolding parse_org_line_def Let_def
    using h0 h1 h2 f0 f1 pk
    by (auto simp: capture_fields_def split: option.split)
qed

lemma parse_org_lines_append:
  "parse_org_lines cfg st (xs @ ys) =
     (case parse_org_lines cfg st xs of
        Inl e \<Rightarrow> Inl e
      | Inr r \<Rightarrow>
          (case parse_org_lines cfg (fst r) ys of
             Inl e \<Rightarrow> Inl e
           | Inr r' \<Rightarrow> Inr (fst r', snd r @ snd r')))"
  by (induction xs arbitrary: st) (auto split: sum.splits)

lemma preamble_no_kv_events:
  "header_kv_re cfg line = None \<Longrightarrow>
   map event_type (option_list (snd (handle_preamble_if_applicable cfg line st)))
     \<noteq> [''preamble_kv'']"
  by (simp add: preamble_no_kv preamble_end_event_def option_list_def)

lemma drawer_open_step:
  assumes o: "drawer_opener cfg line" and c: "capture_fields st = (False, False)"
  shows "\<exists>st' evs. parse_org_line cfg line st = Inr (st', evs)
           \<and> stack_fields st' = stack_fields st \<and> capture_fields st' = (False, True)"
proof -
  from o have kv: "header_kv_re cfg line = None" and cb: "\<not> comment_begin_re cfg line"
    and cl: "\<not> is_comment_line line" and db: "drawer_begin_re cfg line \<noteq> None"
    by (simp_all add: drawer_opener_def)
  obtain s0 r0 where h0: "handle_preamble_if_applicable cfg line st = (s0, r0)"
    by (cases "handle_preamble_if_applicable cfg line st") auto
  have f0: "stack_fields s0 = stack_fields st" "capture_fields s0 = (False, False)"
    using preamble_frame [of cfg line st] h0 c by simp_all
  have e0: "map event_type (option_list r0) \<noteq> [''preamble_kv'']"
    using preamble_no_kv_events [OF kv, of st] h0 by simp
  have h1: "handle_comment_if_present cfg line s0 = (s0, None)"
    using comment_skip [of s0 cfg line] f0 cb cl by (simp add: capture_fields_def)
  from db obtain n where n: "drawer_begin_re cfg line = Some n" by auto
  have h2: "handle_drawer_if_present cfg line s0
              = (s0\<lparr>is_inside_drawer := True, current_drawer_name := Some n,
                     current_drawer_lines := Some []\<rparr>, None)"
    using f0 n by (simp add: handle_drawer_if_present_def capture_fields_def)
  show ?thesis
    unfolding parse_org_line_def Let_def
    using h0 h1 h2 f0 e0
    by (simp add: capture_fields_def stack_fields_def)
qed

lemma drawer_content_step:
  assumes o: "drawer_content cfg line" and c: "capture_fields st = (False, True)"
  shows "\<exists>st' evs. parse_org_line cfg line st = Inr (st', evs)
           \<and> stack_fields st' = stack_fields st \<and> capture_fields st' = (False, True)"
proof -
  from o have de: "\<not> drawer_end_re cfg line" and cb: "\<not> comment_begin_re cfg line"
    by (simp_all add: drawer_content_def)
  obtain s0 r0 where h0: "handle_preamble_if_applicable cfg line st = (s0, r0)"
    by (cases "handle_preamble_if_applicable cfg line st") auto
  obtain s1 r1 where h1: "handle_comment_if_present cfg line s0 = (s1, r1)"
    by (cases "handle_comment_if_present cfg line s0") auto
  have f0: "stack_fields s0 = stack_fields st" "capture_fields s0 = (False, True)"
    using preamble_frame [of cfg line st] h0 c by simp_all
  have f1: "stack_fields s1 = stack_fields st" "capture_fields s1 = (False, True)"
    using comment_frame [of cfg line s0] comment_other [of s0 cfg line] h1 f0 cb
    by (simp_all add: capture_fields_def)
  have h2: "handle_drawer_if_present cfg line s1
              = (s1\<lparr>current_drawer_lines :=
                      Some ((case current_drawer_lines s1 of None \<Rightarrow> [] | Some ls \<Rightarrow> ls)
                            @ [line])\<rparr>, None)"
    using f1 de by (simp add: handle_drawer_if_present_def capture_fields_def)
  show ?thesis
    unfolding parse_org_line_def Let_def
    using h0 h1 h2 f0 f1
    by (auto simp: capture_fields_def stack_fields_def split: option.split)
qed

lemma drawer_close_step:
  assumes o: "drawer_closer cfg line" and c: "capture_fields st = (False, True)"
  shows "\<exists>st' evs. parse_org_line cfg line st = Inr (st', evs)
           \<and> stack_fields st' = stack_fields st \<and> capture_fields st' = (False, False)"
proof -
  from o have kv: "header_kv_re cfg line = None" and cb: "\<not> comment_begin_re cfg line"
    and cl: "\<not> is_comment_line line" and de: "drawer_end_re cfg line"
    by (simp_all add: drawer_closer_def)
  obtain s0 r0 where h0: "handle_preamble_if_applicable cfg line st = (s0, r0)"
    by (cases "handle_preamble_if_applicable cfg line st") auto
  have f0: "stack_fields s0 = stack_fields st" "capture_fields s0 = (False, True)"
    using preamble_frame [of cfg line st] h0 c by simp_all
  have e0: "map event_type (option_list r0) \<noteq> [''preamble_kv'']"
    using preamble_no_kv_events [OF kv, of st] h0 by simp
  have h1: "handle_comment_if_present cfg line s0 = (s0, None)"
    using comment_skip [of s0 cfg line] f0 cb cl by (simp add: capture_fields_def)
  have h2: "\<exists>ev. handle_drawer_if_present cfg line s0
              = (s0\<lparr>is_inside_drawer := False, current_drawer_name := None,
                     current_drawer_lines := None\<rparr>, Some ev)"
    using f0 de by (simp add: handle_drawer_if_present_def capture_fields_def)
  then obtain ev where h2': "handle_drawer_if_present cfg line s0
              = (s0\<lparr>is_inside_drawer := False, current_drawer_name := None,
                     current_drawer_lines := None\<rparr>, Some ev)" by blast
  show ?thesis
    unfolding parse_org_line_def Let_def
    using h0 h1 h2' f0 e0
    by (simp add: capture_fields_def stack_fields_def)
qed

lemma comment_open_step:
  assumes o: "comment_opener cfg line" and c: "capture_fields st = (False, False)"
  shows "\<exists>st' evs. parse_org_line cfg line st = Inr (st', evs)
           \<and> stack_fields st' = stack_fields st \<and> capture_fields st' = (True, False)"
proof -
  from o have kv: "header_kv_re cfg line = None" and cb: "comment_begin_re cfg line"
    by (simp_all add: comment_opener_def)
  obtain s0 r0 where h0: "handle_preamble_if_applicable cfg line st = (s0, r0)"
    by (cases "handle_preamble_if_applicable cfg line st") auto
  have f0: "stack_fields s0 = stack_fields st" "capture_fields s0 = (False, False)"
    using preamble_frame [of cfg line st] h0 c by simp_all
  have e0: "map event_type (option_list r0) \<noteq> [''preamble_kv'']"
    using preamble_no_kv_events [OF kv, of st] h0 by simp
  have h1: "handle_comment_if_present cfg line s0
              = (s0\<lparr>is_inside_comment := True, current_comment_lines := Some [],
                     current_comment_anchor := pending_anchor s0, pending_anchor := None\<rparr>,
                 None)"
    using f0 cb by (simp add: handle_comment_if_present_def capture_fields_def)
  show ?thesis
    unfolding parse_org_line_def Let_def
    using h0 h1 f0 e0
    by (simp add: capture_fields_def stack_fields_def)
qed

lemma comment_content_step:
  assumes o: "comment_content cfg line" and c: "capture_fields st = (True, False)"
  shows "\<exists>st' evs. parse_org_line cfg line st = Inr (st', evs)
           \<and> stack_fields st' = stack_fields st \<and> capture_fields st' = (True, False)"
proof -
  from o have ce: "\<not> comment_end_re cfg line" by (simp add: comment_content_def)
  obtain s0 r0 where h0: "handle_preamble_if_applicable cfg line st = (s0, r0)"
    by (cases "handle_preamble_if_applicable cfg line st") auto
  have f0: "stack_fields s0 = stack_fields st" "capture_fields s0 = (True, False)"
    using preamble_frame [of cfg line st] h0 c by simp_all
  have h1: "handle_comment_if_present cfg line s0
              = (s0\<lparr>current_comment_lines :=
                      Some ((case current_comment_lines s0 of None \<Rightarrow> [] | Some ls \<Rightarrow> ls)
                            @ [line])\<rparr>, None)"
    using f0 ce by (simp add: handle_comment_if_present_def capture_fields_def)
  show ?thesis
    unfolding parse_org_line_def Let_def
    using h0 h1 f0
    by (simp add: capture_fields_def stack_fields_def)
qed

lemma comment_close_step:
  assumes o: "comment_closer cfg line" and c: "capture_fields st = (True, False)"
  shows "\<exists>st' evs. parse_org_line cfg line st = Inr (st', evs)
           \<and> stack_fields st' = stack_fields st \<and> capture_fields st' = (False, False)"
proof -
  from o have kv: "header_kv_re cfg line = None" and ce: "comment_end_re cfg line"
    by (simp_all add: comment_closer_def)
  obtain s0 r0 where h0: "handle_preamble_if_applicable cfg line st = (s0, r0)"
    by (cases "handle_preamble_if_applicable cfg line st") auto
  have f0: "stack_fields s0 = stack_fields st" "capture_fields s0 = (True, False)"
    using preamble_frame [of cfg line st] h0 c by simp_all
  have e0: "map event_type (option_list r0) \<noteq> [''preamble_kv'']"
    using preamble_no_kv_events [OF kv, of st] h0 by simp
  have "\<exists>ev. handle_comment_if_present cfg line s0
              = (s0\<lparr>is_inside_comment := False, current_comment_anchor := None,
                     current_comment_lines := None\<rparr>, Some ev)"
    using f0 ce by (simp add: handle_comment_if_present_def capture_fields_def)
  then obtain ev where h1: "handle_comment_if_present cfg line s0
              = (s0\<lparr>is_inside_comment := False, current_comment_anchor := None,
                     current_comment_lines := None\<rparr>, Some ev)" by blast
  show ?thesis
    unfolding parse_org_line_def Let_def
    using h0 h1 f0 e0
    by (simp add: capture_fields_def stack_fields_def)
qed

lemma content_steps:
  assumes step: "\<And>line st. P line \<Longrightarrow> capture_fields st = cap \<Longrightarrow>
            \<exists>st' evs. parse_org_line cfg line st = Inr (st', evs)
              \<and> stack_fields st' = stack_fields st \<and> capture_fields st' = cap"
  shows "list_all P ls \<Longrightarrow> capture_fields st = cap \<Longrightarrow>
         \<exists>st' evs. parse_org_lines cfg st ls = Inr (st', evs)
           \<and> stack_fields st' = stack_fields st \<and> capture_fields st' = cap"
proof (induction ls arbitrary: st)
  case Nil
  then show ?case by simp
next
  case (Cons l ls)
  from step [of l st] Cons.prems obtain s1 e1 where
    s1: "parse_org_line cfg l st = Inr (s1, e1)" "stack_fields s1 = stack_fields st"
        "capture_fields s1 = cap" by auto
  from Cons.IH [of s1] Cons.prems s1 obtain s2 e2 where
    s2: "parse_org_lines cfg s1 ls = Inr (s2, e2)" "stack_fields s2 = stack_fields s1"
        "capture_fields s2 = cap" by auto
  from s1 s2 show ?case by simp
qed

lemma capture_neutral:
  assumes o: "\<And>st. capture_fields st = (False, False) \<Longrightarrow>
            \<exists>st' evs. parse_org_line cfg opener st = Inr (st', evs)
              \<and> stack_fields st' = stack_fields st \<and> capture_fields st' = cap"
    and b: "\<And>line st. P line \<Longrightarrow> capture_fields st = cap \<Longrightarrow>
            \<exists>st' evs. parse_org_line cfg line st = Inr (st', evs)
              \<and> stack_fields st' = stack_fields st \<and> capture_fields st' = cap"
    and e: "\<And>st. capture_fields st = cap \<Longrightarrow>
            \<exists>st' evs. parse_org_line cfg closer st = Inr (st', evs)
              \<and> stack_fields st' = stack_fields st \<and> capture_fields st' = (False, False)"
    and ls: "list_all P body"
  shows "stack_neutral cfg (opener # body @ [closer])"
  unfolding stack_neutral_def
proof (intro allI impI)
  fix st :: OrgState
  assume c: "capture_fields st = (False, False)"
  from o [OF c] obtain s1 e1 where
    s1: "parse_org_line cfg opener st = Inr (s1, e1)" "stack_fields s1 = stack_fields st"
        "capture_fields s1 = cap" by blast
  from content_steps [of P cap cfg body s1, OF b ls s1(3)] obtain s2 e2 where
    s2: "parse_org_lines cfg s1 body = Inr (s2, e2)" "stack_fields s2 = stack_fields s1"
        "capture_fields s2 = cap" by blast
  from e [OF s2(3)] obtain s3 e3 where
    s3: "parse_org_line cfg closer s2 = Inr (s3, e3)" "stack_fields s3 = stack_fields s2"
        "capture_fields s3 = (False, False)" by blast
  have "parse_org_lines cfg st (opener # body @ [closer]) = Inr (s3, e1 # e2 @ [e3])"
    using s1(1) s2(1) s3(1) by (simp add: parse_org_lines_append)
  moreover have "stack_fields s3 = stack_fields st" using s1 s2 s3 by simp
  ultimately show "\<exists>st' evs. parse_org_lines cfg st (opener # body @ [closer]) = Inr (st', evs)
           \<and> block_stack st' = block_stack st
           \<and> block_verbatim_stack st' = block_verbatim_stack st
           \<and> src_options_stack st' = src_options_stack st
           \<and> capture_fields st' = (False, False)"
    using s3(3) by (auto simp: stack_fields_def)
qed

lemma well_nested_neutral: "well_nested cfg ls \<Longrightarrow> stack_neutral cfg ls"
proof (induction rule: well_nested.induct)
  case empty
  show ?case by (simp add: stack_neutral_def)
next
  case (other line)
  show ?case
    unfolding stack_neutral_def
  proof (intro allI impI)
    fix st :: OrgState
    assume "capture_fields st = (False, False)"
    from other_step [OF other this] show "\<exists>st' evs. parse_org_lines cfg st [line] = Inr (st', evs)
           \<and> block_stack st' = block_stack st
           \<and> block_verbatim_stack st' = block_verbatim_stack st
           \<and> src_options_stack st' = src_options_stack st
           \<and> capture_fields st' = (False, False)"
      by (auto simp: stack_fields_def)
  qed
next
  case (block b name inner e)
  show ?case
    unfolding stack_neutral_def
  proof (intro allI impI)
    fix st :: OrgState
    assume c: "capture_fields st = (False, False)"
    from begin_step [OF block.hyps(1) c] obtain s1 e1 v opt where
      s1: "parse_org_line cfg b st = Inr (s1, e1)"
        "block_stack s1 = block_stack st @ [name]"
        "block_verbatim_stack s1 = block_verbatim_stack st @ [v]"
        "src_options_stack s1 = src_options_stack st @ [opt]"
        "capture_fields s1 = (False, False)"
      by blast
    from block.IH s1(5) obtain s2 e2 where
      s2: "parse_org_lines cfg s1 inner = Inr (s2, e2)"
        "block_stack s2 = block_stack s1"
        "block_verbatim_stack s2 = block_verbatim_stack s1"
        "src_options_stack s2 = src_options_stack s1"
        "capture_fields s2 = (False, False)"
      unfolding stack_neutral_def by blast
    from end_step [OF block.hyps(3) s2(5), of "block_stack st" "block_verbatim_stack st" v
                     "src_options_stack st" opt] s1 s2
    obtain s3 e3 where
      s3: "parse_org_line cfg e s2 = Inr (s3, e3)"
        "block_stack s3 = block_stack st"
        "block_verbatim_stack s3 = block_verbatim_stack st"
        "src_options_stack s3 = src_options_stack st"
        "capture_fields s3 = (False, False)"
      by auto
    have "parse_org_lines cfg st (b # inner @ [e]) = Inr (s3, e1 # e2 @ [e3])"
      using s1(1) s2(1) s3(1) by (simp add: parse_org_lines_append)
    with s3 show "\<exists>st' evs. parse_org_lines cfg st (b # inner @ [e]) = Inr (st', evs)
           \<and> block_stack st' = block_stack st
           \<and> block_verbatim_stack st' = block_verbatim_stack st
           \<and> src_options_stack st' = src_options_stack st
           \<and> capture_fields st' = (False, False)"
      by blast
  qed
next
  case (drawer b inner e)
  show ?case
    by (rule capture_neutral [where cap = "(False, True)" and P = "drawer_content cfg"])
       (erule drawer_open_step [OF drawer.hyps(1)] | erule (1) drawer_content_step
        | erule drawer_close_step [OF drawer.hyps(3)] | rule drawer.hyps(2))+
next
  case (comment b inner e)
  show ?case
    by (rule capture_neutral [where cap = "(True, False)" and P = "comment_content cfg"])
       (erule comment_open_step [OF comment.hyps(1)] | erule (1) comment_content_step
        | erule comment_close_step [OF comment.hyps(3)] | rule comment.hyps(2))+
next
  case (append xs ys)
  show ?case
    unfolding stack_neutral_def
  proof (intro allI impI)
    fix st :: OrgState
    assume c: "capture_fields st = (False, False)"
    from append.IH(1) c obtain s1 e1 where
      s1: "parse_org_lines cfg st xs = Inr (s1, e1)"
        "block_stack s1 = block_stack st"
        "block_verbatim_stack s1 = block_verbatim_stack st"
        "src_options_stack s1 = src_options_stack st"
        "capture_fields s1 = (False, False)"
      unfolding stack_neutral_def by blast
    from append.IH(2) s1(5) obtain s2 e2 where
      s2: "parse_org_lines cfg s1 ys = Inr (s2, e2)"
        "block_stack s2 = block_stack s1"
        "block_verbatim_stack s2 = block_verbatim_stack s1"
        "src_options_stack s2 = src_options_stack s1"
        "capture_fields s2 = (False, False)"
      unfolding stack_neutral_def by blast
    have "parse_org_lines cfg st (xs @ ys) = Inr (s2, e1 @ e2)"
      using s1(1) s2(1) by (simp add: parse_org_lines_append)
    with s1 s2 show "\<exists>st' evs. parse_org_lines cfg st (xs @ ys) = Inr (st', evs)
           \<and> block_stack st' = block_stack st
           \<and> block_verbatim_stack st' = block_verbatim_stack st
           \<and> src_options_stack st' = src_options_stack st
           \<and> capture_fields st' = (False, False)"
      by simp
  qed
qed

text \<open>
  C5 (amended): for every configuration and every sequence of lines processed from a
  fresh state, no call raises, and in the state after the last call (so after every
  call) \<open>is_inside_verbatim_block\<close> is \<open>any(block_verbatim_stack)\<close> and the block stack,
  the verbatim stack and the src-options stack have the same length. The block stack
  is empty at the end and the flag is false when the sequence is well formed in this
  sense: it is a concatenation of (a) lines that are no block marker and open no
  drawer or comment block; (b) a begin marker, a well-formed sequence and an end
  marker of the same name, where both markers reach the block handler (neither is a
  keyword, comment, drawer or table line); (c) a line that opens a drawer, lines that
  neither close it nor open a comment block, and a line that closes it; (d) a line
  that opens a comment block, lines that do not close it, and a line that closes it.
\<close>

theorem block_nesting_invariant:
  "\<exists>st evs. parse_org_lines cfg fresh_state lines = Inr (st, evs)
     \<and> is_inside_verbatim_block st = list_ex id (block_verbatim_stack st)
     \<and> length (block_verbatim_stack st) = length (block_stack st)
     \<and> length (src_options_stack st) = length (block_stack st)
     \<and> (well_nested cfg lines \<longrightarrow> block_stack st = [] \<and> \<not> is_inside_verbatim_block st)"
proof -
  from parse_org_lines_keeps_invariant [OF fresh_state_invariant, of cfg lines]
  obtain st evs where r: "parse_org_lines cfg fresh_state lines = Inr (st, evs)"
    and i: "block_invariant st" by blast
  have "block_stack st = [] \<and> \<not> is_inside_verbatim_block st" if "well_nested cfg lines"
  proof -
    have "capture_fields fresh_state = (False, False)"
      by (simp add: capture_fields_def fresh_state_def)
    with well_nested_neutral [OF that] r have "block_stack st = block_stack fresh_state"
      "block_verbatim_stack st = block_verbatim_stack fresh_state"
      unfolding stack_neutral_def by auto
    with i show ?thesis by (simp add: fresh_state_def block_invariant_def)
  qed
  with r i show ?thesis by (auto simp: block_invariant_def)
qed

theorem block_nesting_invariant_witness:
  "well_nested DEFAULT_CONFIG
     [''* H'', '':PROPERTIES:'', '':ID: x'', '':END:'',
      ''#+begin_quote'', ''#+BEGIN_SRC python'', ''x = 1'', ''#+end_src'', ''#+end_quote'']
   \<and> (\<exists>st evs. parse_org_lines DEFAULT_CONFIG fresh_state
          [''* H'', '':PROPERTIES:'', '':ID: x'', '':END:'',
           ''#+begin_quote'', ''#+BEGIN_SRC python'', ''x = 1'', ''#+end_src'', ''#+end_quote'']
          = Inr (st, evs)
        \<and> block_stack st = [] \<and> block_verbatim_stack st = [] \<and> src_options_stack st = []
        \<and> \<not> is_inside_verbatim_block st)"
proof -
  have o1: "other_line DEFAULT_CONFIG ''* H''" by code_simp
  have o2: "other_line DEFAULT_CONFIG ''x = 1''" by code_simp
  have d1: "drawer_opener DEFAULT_CONFIG '':PROPERTIES:''" by code_simp
  have d2: "list_all (drawer_content DEFAULT_CONFIG) ['':ID: x'']" by code_simp
  have d3: "drawer_closer DEFAULT_CONFIG '':END:''" by code_simp
  have b1: "begin_marker DEFAULT_CONFIG ''#+begin_quote'' ''quote''" by code_simp
  have b2: "begin_marker DEFAULT_CONFIG ''#+BEGIN_SRC python'' ''src''" by code_simp
  have e2: "end_marker DEFAULT_CONFIG ''#+end_src'' ''src''" by code_simp
  have e1: "end_marker DEFAULT_CONFIG ''#+end_quote'' ''quote''" by code_simp
  have w3: "well_nested DEFAULT_CONFIG ('':PROPERTIES:'' # ['':ID: x''] @ ['':END:''])"
    by (rule well_nested.drawer [OF d1 d2 d3])
  have w2: "well_nested DEFAULT_CONFIG (''#+BEGIN_SRC python'' # [''x = 1''] @ [''#+end_src''])"
    by (rule well_nested.block [OF b2 well_nested.other [OF o2] e2])
  have w1: "well_nested DEFAULT_CONFIG
              (''#+begin_quote'' # (''#+BEGIN_SRC python'' # [''x = 1''] @ [''#+end_src''])
                 @ [''#+end_quote''])"
    by (rule well_nested.block [OF b1 w2 e1])
  have w: "well_nested DEFAULT_CONFIG
     [''* H'', '':PROPERTIES:'', '':ID: x'', '':END:'',
      ''#+begin_quote'', ''#+BEGIN_SRC python'', ''x = 1'', ''#+end_src'', ''#+end_quote'']"
    using well_nested.append [OF well_nested.other [OF o1] well_nested.append [OF w3 w1]]
    by simp
  from block_nesting_invariant [of DEFAULT_CONFIG
     "[''* H'', '':PROPERTIES:'', '':ID: x'', '':END:'',
       ''#+begin_quote'', ''#+BEGIN_SRC python'', ''x = 1'', ''#+end_src'', ''#+end_quote'']"] w
  show ?thesis by auto
qed

text \<open>
  C5 (as stated): whenever every begin marker is matched by an end marker of the same
  name, the block stack is empty and the flag false at the end. Under the default
  configuration, in the lines \<open>#+begin_example\<close>, \<open>:foo:\<close>, \<open>#+end_example\<close> the only
  begin marker is followed by the end marker of its name, and the line between them
  matches no block pattern; processed from a fresh state, \<open>:foo:\<close> opens a drawer that
  takes the end marker as its content, so the block stack still holds \<open>example\<close> and
  the flag is still set at the end of the input.
\<close>

theorem block_end_in_drawer_counterexample:
  "begin_marker DEFAULT_CONFIG ''#+begin_example'' ''example''
   \<and> block_re DEFAULT_CONFIG '':foo:'' = None
   \<and> end_marker DEFAULT_CONFIG ''#+end_example'' ''example''
   \<and> (case parse_org_lines DEFAULT_CONFIG fresh_state
              [''#+begin_example'', '':foo:'', ''#+end_example''] of
         Inl e \<Rightarrow> False
       | Inr (st, evs) \<Rightarrow>
           block_stack st = [''example''] \<and> block_verbatim_stack st = [True]
           \<and> is_inside_verbatim_block st \<and> is_inside_drawer st
           \<and> current_drawer_lines st = Some [''#+end_example''])"
  by code_simp

text \<open>
  C6: for a line that the block pattern matches as an end marker, the block handler of
  the classifier
  \<^item> with an empty block stack returns a \<open>block_end\<close> event whose \<open>orphan_ignored\<close>
    flag is set, and the state exactly as it was;
  \<^item> with a block stack whose top differs from the marker's name returns a \<open>block_end\<close>
    event whose \<open>mismatch_ignored\<close> flag is set (and which names the expected block),
    pops no stack and returns the state exactly as it was;
  \<^item> and in both cases, when the line reaches the handler in \<open>parse_org_line\<close> (it is no
    keyword, comment, drawer, table or heading line) in a state past the preamble and
    outside a comment block and a drawer, \<open>parse_org_line\<close> emits that event first and
    returns the state exactly as it was.
\<close>

theorem unmatched_block_end_ignored:
  assumes m: "block_re cfg line = Some (g1, g2, g3)" and side: "lower g1 \<noteq> ''begin''"
  shows "(block_stack state = [] \<longrightarrow>
            handle_block_marker_if_present cfg line state
              = Inr (state, Some (OrgEvent ''block_end''
                                    [(''name'', PStr (lower g2)),
                                     (''orphan_ignored'', PBool True)])))
       \<and> (block_stack state \<noteq> [] \<and> last (block_stack state) \<noteq> lower g2 \<longrightarrow>
            handle_block_marker_if_present cfg line state
              = Inr (state, Some (OrgEvent ''block_end''
                                    [(''name'', PStr (lower g2)),
                                     (''mismatch_ignored'', PBool True),
                                     (''expected'', PStr (last (block_stack state)))])))
       \<and> ((block_stack state = [] \<or> last (block_stack state) \<noteq> lower g2)
            \<and> passes_to_structure cfg line \<and> section_heading_re cfg line = None
            \<and> \<not> is_in_preamble state \<and> \<not> is_inside_comment state
            \<and> \<not> is_inside_drawer state \<longrightarrow>
            (\<exists>ev rest. handle_block_marker_if_present cfg line state = Inr (state, Some ev)
               \<and> parse_org_line cfg line state = Inr (state, ev # rest)))"
proof -
  have h: "handle_block_marker_if_present cfg line state
              = Inr (state, Some (OrgEvent ''block_end''
                                    [(''name'', PStr (lower g2)),
                                     (''orphan_ignored'', PBool True)]))"
    if "block_stack state = []"
    using m side that by (simp add: handle_block_marker_if_present_def Let_def)
  have k: "handle_block_marker_if_present cfg line state
              = Inr (state, Some (OrgEvent ''block_end''
                                    [(''name'', PStr (lower g2)),
                                     (''mismatch_ignored'', PBool True),
                                     (''expected'', PStr (last (block_stack state)))]))"
    if "block_stack state \<noteq> []" "last (block_stack state) \<noteq> lower g2"
    using m side that by (simp add: handle_block_marker_if_present_def Let_def)
  have p: "\<exists>ev rest. handle_block_marker_if_present cfg line state = Inr (state, Some ev)
               \<and> parse_org_line cfg line state = Inr (state, ev # rest)"
    if u: "block_stack state = [] \<or> last (block_stack state) \<noteq> lower g2"
      and ps: "passes_to_structure cfg line" and hd: "section_heading_re cfg line = None"
      and st: "\<not> is_in_preamble state" "\<not> is_inside_comment state" "\<not> is_inside_drawer state"
  proof -
    from u h k obtain ev where
      ev: "handle_block_marker_if_present cfg line state = Inr (state, Some ev)"
      by (cases "block_stack state = []") auto
    have pol: "parse_org_line cfg line state = parse_structure cfg line state []"
      using parse_org_line_structure [OF st(2) st(3) ps] st(1) by simp
    have "\<exists>rest. parse_structure cfg line state [] = Inr (state, ev # rest)"
      using ev hd
      by (auto simp: parse_structure_def handle_section_heading_if_present_def option_list_def
                 Let_def split: option.split)
    then show ?thesis using ev pol by auto
  qed
  from h k p show ?thesis by blast
qed

theorem unmatched_block_end_ignored_witness:
  "handle_block_marker_if_present DEFAULT_CONFIG ''#+END_src'' fresh_state
     = Inr (fresh_state, Some (OrgEvent ''block_end''
                                 [(''name'', PStr ''src''), (''orphan_ignored'', PBool True)]))
   \<and> handle_block_marker_if_present DEFAULT_CONFIG ''#+end_src''
        (fresh_state\<lparr>block_stack := [''quote''], block_verbatim_stack := [True],
                      src_options_stack := [None], is_inside_verbatim_block := True\<rparr>)
     = Inr (fresh_state\<lparr>block_stack := [''quote''], block_verbatim_stack := [True],
                         src_options_stack := [None], is_inside_verbatim_block := True\<rparr>,
            Some (OrgEvent ''block_end''
                    [(''name'', PStr ''src''), (''mismatch_ignored'', PBool True),
                     (''expected'', PStr ''quote'')]))
   \<and> (\<exists>rest. parse_org_line DEFAULT_CONFIG ''#+end_src''
                  (fresh_state\<lparr>is_in_preamble := False\<rparr>)
        = Inr (fresh_state\<lparr>is_in_preamble := False\<rparr>,
               OrgEvent ''block_end''
                 [(''name'', PStr ''src''), (''orphan_ignored'', PBool True)] # rest))"
proof -
  define s1 where "s1 = fresh_state\<lparr>is_in_preamble := False\<rparr>"
  define s2 where "s2 = fresh_state\<lparr>block_stack := [''quote''], block_verbatim_stack := [True],
                      src_options_stack := [None], is_inside_verbatim_block := True\<rparr>"
  have a: "block_re DEFAULT_CONFIG ''#+END_src'' = Some (''END'', ''src'', Some [])"
    by code_simp
  have b: "block_re DEFAULT_CONFIG ''#+end_src'' = Some (''end'', ''src'', Some [])"
    by code_simp
  have l: "lower ''END'' = ''end''" "lower ''end'' = ''end''" "lower ''src'' = ''src''"
    by code_simp+
  have p: "passes_to_structure DEFAULT_CONFIG ''#+end_src''"
    "section_heading_re DEFAULT_CONFIG ''#+end_src'' = None"
    by code_simp+
  have f0: "block_stack fresh_state = []" by (simp add: fresh_state_def)
  have f1: "block_stack s1 = []" "\<not> is_in_preamble s1" "\<not> is_inside_comment s1"
    "\<not> is_inside_drawer s1"
    by (simp_all add: s1_def fresh_state_def)
  have f2: "block_stack s2 \<noteq> []" "last (block_stack s2) = ''quote''"
    by (simp_all add: s2_def)
  have c1: "handle_block_marker_if_present DEFAULT_CONFIG ''#+END_src'' fresh_state
     = Inr (fresh_state, Some (OrgEvent ''block_end''
                                 [(''name'', PStr ''src''), (''orphan_ignored'', PBool True)]))"
    using unmatched_block_end_ignored [OF a, of fresh_state] f0 l by simp
  have c2: "handle_block_marker_if_present DEFAULT_CONFIG ''#+end_src'' s2
     = Inr (s2, Some (OrgEvent ''block_end''
                    [(''name'', PStr ''src''), (''mismatch_ignored'', PBool True),
                     (''expected'', PStr ''quote'')]))"
    using unmatched_block_end_ignored [OF b, of s2] f2 l by simp
  have c3: "\<exists>rest. parse_org_line DEFAULT_CONFIG ''#+end_src'' s1
        = Inr (s1, OrgEvent ''block_end''
                 [(''name'', PStr ''src''), (''orphan_ignored'', PBool True)] # rest)"
    using unmatched_block_end_ignored [OF b, of s1] f1 p l by auto
  from c1 c2 c3 show ?thesis unfolding s1_def s2_def by blast
qed

lemma strip_empty_all_space:
  assumes "strip s = []"
  shows "list_all isspace s"
proof -
  let ?d = "dropWhile isspace (rev s)"
  have all: "\<forall>c \<in> set ?d. isspace c"
    using assms by (simp add: strip_def lstrip_def rstrip_def dropWhile_eq_Nil_conv)
  have "?d = []"
  proof (rule ccontr)
    assume ne: "?d \<noteq> []"
    then have "\<not> isspace (hd ?d)" by (rule hd_dropWhile)
    moreover from ne have "hd ?d \<in> set ?d" by simp
    ultimately show False using all by blast
  qed
  then show ?thesis by (simp add: dropWhile_eq_Nil_conv list_all_iff)
qed

lemma all_space_lstrip: "list_all isspace s \<Longrightarrow> lstrip s = []"
  by (simp add: lstrip_def dropWhile_eq_Nil_conv list_all_iff)

lemma default_patterns_reject_blank:
  assumes "strip line = []"
  shows "patterns_reject DEFAULT_CONFIG line"
proof -
  have sp: "list_all isspace line" using assms by (rule strip_empty_all_space)
  then have l: "lstrip line = []" by (rule all_space_lstrip)
  have star: "takeWhile (\<lambda>c. c = CHR ''*'') line = []"
    using sp by (cases line) (auto simp: isspace_def)
  show ?thesis
    using l star
    by (simp add: patterns_reject_def DEFAULT_CONFIG_def default_header_kv_re_def
          default_comment_begin_re_def default_drawer_begin_re_def
          default_section_heading_re_def default_block_re_def default_unordered_list_re_def
          default_ordered_list_re_def startswith_def Let_def lower_def)
qed

text \<open>
  C7 (amended): for a whitespace-only line processed while the state is in the
  preamble (and neither a comment block nor a drawer is being captured), under a
  configuration whose patterns do not match the line (as the default configuration's do
  not, \<open>default_patterns_reject_blank\<close>), the preamble handler emits nothing and
  \<open>parse_org_line\<close> leaves the whole state unchanged, the in-preamble flag and the
  stored headers included; it emits one event, the \<open>line_tokens\<close> event of the line.
\<close>

theorem blank_line_in_preamble:
  assumes "strip line = []" and "is_in_preamble state"
    and "\<not> is_inside_comment state" and "\<not> is_inside_drawer state"
    and "patterns_reject cfg line"
  shows "handle_preamble_if_applicable cfg line state = (state, None)
         \<and> parse_org_line cfg line state = Inr (state, [make_line_token_event line])"
proof -
  from assms(5) have p: "header_kv_re cfg line = None" "\<not> comment_begin_re cfg line"
    "drawer_begin_re cfg line = None" "section_heading_re cfg line = None"
    "block_re cfg line = None" "unordered_list_re cfg line = None"
    "ordered_list_re cfg line = None"
    by (simp_all add: patterns_reject_def)
  have l: "lstrip line = []"
    using assms(1) by (intro all_space_lstrip strip_empty_all_space)
  have pre: "handle_preamble_if_applicable cfg line state = (state, None)"
    using assms(1) by (simp add: handle_preamble_if_applicable_def)
  have pass: "passes_to_structure cfg line"
    using p l by (simp add: passes_to_structure_def is_comment_line_def startswith_def)
  have "parse_structure cfg line state [] = Inr (state, [make_line_token_event line])"
    using p
    by (simp add: parse_structure_def handle_section_heading_if_present_def block_none
          handle_unordered_list_if_present_def handle_ordered_list_if_present_def
          option_list_def)
  with parse_org_line_structure [OF assms(3) assms(4) pass] assms(1) pre
  show ?thesis by simp
qed

theorem blank_line_in_preamble_witness:
  "parse_org_line DEFAULT_CONFIG ''  '' fresh_state
     = Inr (fresh_state,
            [OrgEvent ''line_tokens'' [(''tokens'', PList [PTuple [PStr ''plaintext'', PStr ''  '']])]])"
proof -
  have s: "strip ''  '' = []" by code_simp
  have t: "make_line_token_event ''  ''
     = OrgEvent ''line_tokens'' [(''tokens'', PList [PTuple [PStr ''plaintext'', PStr ''  '']])]"
    by code_simp
  from blank_line_in_preamble [OF s _ _ _ default_patterns_reject_blank [OF s], of fresh_state] t
  show ?thesis by (simp add: fresh_state_def)
qed

text \<open>
  C7 (as stated): no event at all is emitted for a blank line in the preamble. For the
  line of one blank and a fresh state, under the default configuration, one event is
  emitted.
\<close>

theorem blank_line_emits_event_counterexample:
  "parse_org_line DEFAULT_CONFIG '' '' fresh_state
     = Inr (fresh_state,
            [OrgEvent ''line_tokens''
               [(''tokens'', PList [PTuple [PStr ''plaintext'', PStr '' '']])]])"
  by code_simp

text \<open>
  C4 (as stated): for the lines \<open>#+TITLE: A\<close>, \<open>#+LANGUAGE: de\<close>, \<open>Body\<close> the preamble
  ends at the \<open>LANGUAGE\<close> line and the stored headers are only the title. After the
  first two lines the state is still in the preamble, no \<open>preamble_end\<close> event has been
  emitted, and \<open>language\<close> is stored as a header.
\<close>

theorem language_directive_counterexample:
  "parse_org_lines DEFAULT_CONFIG fresh_state [''#+TITLE: A'', ''#+LANGUAGE: de'']
     = Inr (fresh_state\<lparr>preamble_headers := [(''title'', ''A''), (''language'', ''de'')]\<rparr>,
            [[OrgEvent ''preamble_kv'' [(''key'', PStr ''title''), (''value'', PStr ''A'')],
              OrgEvent ''line_tokens''
                [(''tokens'', PList [PTuple [PStr ''plaintext'', PStr ''#+TITLE: A'']])]],
             [OrgEvent ''preamble_kv'' [(''key'', PStr ''language''), (''value'', PStr ''de'')],
              OrgEvent ''line_tokens''
                [(''tokens'', PList [PTuple [PStr ''plaintext'', PStr ''#+LANGUAGE: de'']])]]])"
  by code_simp

text \<open>
  C4 (amended): for the lines \<open>#+TITLE: A\<close>, \<open>#+LANGUAGE: de\<close>, \<open>Body\<close> processed from
  a fresh state, both directives are preamble entries, the preamble ends at the line
  \<open>Body\<close> (the \<open>preamble_end\<close> event is emitted there, and that line is the first
  content), and the stored headers are \<open>title: A\<close> and \<open>language: de\<close>.
\<close>

theorem preamble_ends_at_body:
  "parse_org_lines DEFAULT_CONFIG fresh_state [''#+TITLE: A'', ''#+LANGUAGE: de'', ''Body'']
     = Inr (fresh_state\<lparr>preamble_headers := [(''title'', ''A''), (''language'', ''de'')],
                         is_in_preamble := False\<rparr>,
            [[OrgEvent ''preamble_kv'' [(''key'', PStr ''title''), (''value'', PStr ''A'')],
              OrgEvent ''line_tokens''
                [(''tokens'', PList [PTuple [PStr ''plaintext'', PStr ''#+TITLE: A'']])]],
             [OrgEvent ''preamble_kv'' [(''key'', PStr ''language''), (''value'', PStr ''de'')],
              OrgEvent ''line_tokens''
                [(''tokens'', PList [PTuple [PStr ''plaintext'', PStr ''#+LANGUAGE: de'']])]],
             [OrgEvent ''preamble_end'' [(''reason'', PStr ''first_non_header_content'')],
              OrgEvent ''line_tokens''
                [(''tokens'', PList [PTuple [PStr ''plaintext'', PStr ''Body'']])]]])"
  by code_simp

end
